theory Spec2Isabelle
  imports Complex_Main "HOL-Library.Word"
begin

unbundle bit_operations_syntax

section \<open>Byte buffers and JavaScript number coercions\<close>

text \<open>
  A \<^verbatim>\<open>Uint8Array\<close> is a list of bytes. JavaScript numbers that the code treats as
  integers are \<^typ>\<open>int\<close>; storing a number into a \<^verbatim>\<open>Uint8Array\<close> cell keeps it modulo 256,
  which is what \<^const>\<open>word_of_int\<close> does. \<^verbatim>\<open>n >>> 0\<close> is the value modulo \<open>2^32\<close>, and
  \<^verbatim>\<open>n & 0xff\<close>, \<^verbatim>\<open>n & 0xffff\<close> are the bitwise conjunctions on the two's complement
  representation.
\<close>

type_synonym byte = "8 word"

definition to_uint32 :: "int \<Rightarrow> int" where
  "to_uint32 n = n mod 4294967296"

text \<open>\<^verbatim>\<open>DataView.setUint8 / setUint16 / setUint32 / getUint32\<close> at a byte offset.\<close>

definition setUint8 :: "byte list \<Rightarrow> nat \<Rightarrow> int \<Rightarrow> byte list" where
  "setUint8 buf off v = buf[off := word_of_int v]"

definition setUint16 :: "byte list \<Rightarrow> nat \<Rightarrow> int \<Rightarrow> bool \<Rightarrow> byte list" where
  "setUint16 buf off v littleEndian =
     (let n = v mod 65536; b0 = word_of_int n; b1 = word_of_int (n div 256)
      in if littleEndian then buf[off := b0, off + 1 := b1]
         else buf[off := b1, off + 1 := b0])"

definition setUint32 :: "byte list \<Rightarrow> nat \<Rightarrow> int \<Rightarrow> bool \<Rightarrow> byte list" where
  "setUint32 buf off v littleEndian =
     (let n = to_uint32 v;
          b0 = word_of_int n; b1 = word_of_int (n div 256);
          b2 = word_of_int (n div 65536); b3 = word_of_int (n div 16777216)
      in if littleEndian
         then buf[off := b0, off + 1 := b1, off + 2 := b2, off + 3 := b3]
         else buf[off := b3, off + 1 := b2, off + 2 := b1, off + 3 := b0])"

definition getUint32 :: "byte list \<Rightarrow> nat \<Rightarrow> bool \<Rightarrow> int" where
  "getUint32 buf off littleEndian =
     (if littleEndian
      then uint (buf ! off) + 256 * uint (buf ! (off + 1))
           + 65536 * uint (buf ! (off + 2)) + 16777216 * uint (buf ! (off + 3))
      else uint (buf ! (off + 3)) + 256 * uint (buf ! (off + 2))
           + 65536 * uint (buf ! (off + 1)) + 16777216 * uint (buf ! off))"

text \<open>\<^verbatim>\<open>concat(parts)\<close> and \<^verbatim>\<open>u32le(n)\<close> of \<^verbatim>\<open>adbStub.ts\<close>.\<close>

definition concat_parts :: "byte list list \<Rightarrow> byte list" where
  "concat_parts parts = concat parts"

definition u32le :: "int \<Rightarrow> byte list" where
  "u32le n = setUint32 (replicate 4 0) 0 (to_uint32 n) True"

section \<open>Multiplexer frames (\<^verbatim>\<open>MuxMessage\<close>)\<close>

datatype MuxMessageType = CreateChannel | CloseChannel | RawBinaryData | RawStringData | Data

fun type_code :: "MuxMessageType \<Rightarrow> int" where
  "type_code CreateChannel = 4"
| "type_code CloseChannel = 8"
| "type_code RawBinaryData = 16"
| "type_code RawStringData = 32"
| "type_code Data = 64"

datatype mux_error =
    InvalidMuxMessage
  | NoAvailableChannelId
  | IncorrectSocketState
  | SocketClosingOrClosed
  | InvalidStateError

record MuxMessage =
  mtype :: int
  channelId :: int
  payload :: "byte list"

text \<open>
  \<^verbatim>\<open>MuxMessage.parse\<close>: fewer than five bytes is an error; the type is the first byte as
  a number (it is not checked against the enum), the channel id the next four bytes read
  little-endian, the payload everything after the header.
\<close>

definition parse :: "byte list \<Rightarrow> mux_error + MuxMessage" where
  "parse buffer =
     (if length buffer < 5 then Inl InvalidMuxMessage
      else Inr \<lparr>mtype = uint (buffer ! 0),
                channelId = getUint32 buffer 1 True,
                payload = drop 5 buffer\<rparr>)"

text \<open>
  \<^verbatim>\<open>MuxMessage.createBuffer\<close>: a five-byte header, returned alone when the payload is
  absent or empty, followed by the payload otherwise.
\<close>

definition createBuffer :: "int \<Rightarrow> int \<Rightarrow> byte list option \<Rightarrow> byte list" where
  "createBuffer t cid pl =
     (let header = (replicate 5 0)[0 := word_of_int t];
          header = take 1 header @ u32le cid
      in case pl of
           None \<Rightarrow> header
         | Some p \<Rightarrow> if length p = 0 then header else concat_parts [header, p])"

section \<open>Control messages (\<^verbatim>\<open>control.ts\<close>)\<close>

datatype ControlMessageType = KEYCODE | TEXT | TOUCH | SCROLL

fun control_code :: "ControlMessageType \<Rightarrow> int" where
  "control_code KEYCODE = 0"
| "control_code TEXT = 1"
| "control_code TOUCH = 2"
| "control_code SCROLL = 3"

datatype MotionAction = DOWN | UP | MOVE

fun motion_code :: "MotionAction \<Rightarrow> int" where
  "motion_code DOWN = 0"
| "motion_code UP = 1"
| "motion_code MOVE = 2"

text \<open>
  The pressure is the only fractional input. A double is a rational number, and
  \<^verbatim>\<open>clamp\<close> and \<^verbatim>\<open>Math.round\<close> (to the nearest integer, a half going up) are exact on
  it. The product \<^verbatim>\<open>p * 0xffff\<close> is a double-precision product, which need not be the
  exact one: the multiplication is an argument \<open>fmul\<close> of the encoder. NaN is not a
  value of the model.
\<close>

definition clamp :: "rat \<Rightarrow> rat \<Rightarrow> rat \<Rightarrow> rat" where
  "clamp n mn mx = (if n < mn then mn else if n > mx then mx else n)"

definition math_round :: "rat \<Rightarrow> int" where
  "math_round v = \<lfloor>v + 1 / 2\<rfloor>"

definition encodeTouchMessage ::
  "(rat \<Rightarrow> rat \<Rightarrow> rat) \<Rightarrow> int \<Rightarrow> int \<Rightarrow> int \<Rightarrow> int \<Rightarrow> int \<Rightarrow> int \<Rightarrow> rat option \<Rightarrow> int
     \<Rightarrow> byte list" where
  "encodeTouchMessage fmul action pointerId x y screenW screenH pressure01 buttons =
     (let buf = replicate 29 0;
          off = 0;
          p = clamp (case pressure01 of None \<Rightarrow> 1 | Some v \<Rightarrow> v) 0 1;
          pressureU16 = math_round (fmul p 65535) AND 65535;
          buf = setUint8 buf off (control_code TOUCH); off = off + 1;
          buf = setUint8 buf off (action AND 255); off = off + 1;
          buf = setUint32 buf off 0 False; off = off + 4;
          buf = setUint32 buf off (to_uint32 pointerId) False; off = off + 4;
          buf = setUint32 buf off (to_uint32 x) False; off = off + 4;
          buf = setUint32 buf off (to_uint32 y) False; off = off + 4;
          buf = setUint16 buf off (screenW AND 65535) False; off = off + 2;
          buf = setUint16 buf off (screenH AND 65535) False; off = off + 2;
          buf = setUint16 buf off pressureU16 False; off = off + 2;
          buf = setUint32 buf off (to_uint32 buttons) False
      in buf)"

text \<open>
  The layout the specification gives for a touch message, field by field, most significant
  byte first. It is written from the specification's words and is compared with
  \<^const>\<open>encodeTouchMessage\<close> below.
\<close>

definition be_u32 :: "int \<Rightarrow> byte list" where
  "be_u32 v = [word_of_int (v div 16777216), word_of_int (v div 65536),
               word_of_int (v div 256), word_of_int v]"

definition be_u16 :: "int \<Rightarrow> byte list" where
  "be_u16 v = [word_of_int (v div 256), word_of_int v]"

definition touch_layout ::
  "int \<Rightarrow> int \<Rightarrow> int \<Rightarrow> int \<Rightarrow> int \<Rightarrow> int \<Rightarrow> int \<Rightarrow> int \<Rightarrow> byte list" where
  "touch_layout action pointerId x y screenW screenH pressureU16 buttons =
     [2, word_of_int action] @ be_u32 0 @ be_u32 pointerId @ be_u32 x @ be_u32 y
     @ be_u16 screenW @ be_u16 screenH @ be_u16 pressureU16 @ be_u32 buttons"

section \<open>Strings and truthiness\<close>

text \<open>
  A JavaScript string is a list of code units, one \<^typ>\<open>char\<close> each (code units up to 255).
  \<^verbatim>\<open>if (x)\<close> on an optional number is false for \<^verbatim>\<open>undefined\<close> and for 0, on an
  optional string for \<^verbatim>\<open>undefined\<close> and for the empty string. \<^verbatim>\<open>String.prototype.trim\<close>
  strips white space and line terminators at both ends; in this range they are the code
  units 9 to 13, 32 and 160. A template literal prints an integer in decimal.
\<close>

definition truthy_num :: "int option \<Rightarrow> bool" where
  "truthy_num v = (case v of None \<Rightarrow> False | Some n \<Rightarrow> n \<noteq> 0)"

definition truthy_str :: "string option \<Rightarrow> bool" where
  "truthy_str v = (case v of None \<Rightarrow> False | Some s \<Rightarrow> s \<noteq> [])"

definition is_space :: "char \<Rightarrow> bool" where
  "is_space c = ((of_char c :: nat) \<in> {9, 10, 11, 12, 13, 32, 160})"

definition trim :: "string \<Rightarrow> string" where
  "trim s = rev (dropWhile is_space (rev (dropWhile is_space s)))"

definition digit_char :: "nat \<Rightarrow> char" where
  "digit_char d = ''0123456789'' ! d"

fun string_of_nat :: "nat \<Rightarrow> string" where
  "string_of_nat n =
     (if 10 \<le> n then string_of_nat (n div 10) @ [digit_char (n mod 10)]
      else [digit_char n])"

declare string_of_nat.simps [simp del]

definition string_of_int :: "int \<Rightarrow> string" where
  "string_of_int i = (if i < 0 then CHR ''-'' # string_of_nat (nat (- i)) else string_of_nat (nat i))"

section \<open>Recorder\<close>

text \<open>
  \<^verbatim>\<open>ActionRecorder.ts\<close>. A frame (\<^verbatim>\<open>ws.Data\<close>) is a string, a \<^verbatim>\<open>Buffer\<close>, an array of
  buffers or an \<^verbatim>\<open>ArrayBuffer\<close>. The clock \<^verbatim>\<open>Date.now()\<close> is an argument \<open>now\<close> of
  every operation that reads it (the two reads in \<^verbatim>\<open>getElapsed\<close> are one instant). The
  base64 codec of \<^verbatim>\<open>Buffer\<close> is library code: \<^verbatim>\<open>encode\<close> and \<^verbatim>\<open>decodeMessage\<close> take it as
  an argument. The \<^verbatim>\<open>recordings/\<close> directory is a map from file path to file content; a
  file's content is the \<^verbatim>\<open>RecordingFile\<close> object that \<^verbatim>\<open>JSON.stringify\<close> wrote and
  \<^verbatim>\<open>JSON.parse\<close> reads back, so in \<^verbatim>\<open>load\<close> the coercions \<^verbatim>\<open>Number(item.at) || 0\<close>,
  \<^verbatim>\<open>String(item.data ?? '')\<close> and \<^verbatim>\<open>Boolean(item.binary)\<close> act on values of their own
  type, and the check for a missing \<^verbatim>\<open>messages\<close> array cannot fail. \<^verbatim>\<open>createdAt\<close> is kept
  as the timestamp it is printed from. \<^verbatim>\<open>Array.prototype.sort\<close> is stable, as
  \<^const>\<open>sort_key\<close> is.
\<close>

datatype WsData =
    WsString string
  | WsBuffer "byte list"
  | WsBufferArray "byte list list"
  | WsArrayBuffer "byte list"

record RecordingMeta =
  meta_device :: "string option"
  meta_source :: "string option"
  meta_name :: "string option"

record RecordedMessage =
  at_ms :: int
  data :: string
  binary :: bool

record RecordingFile =
  file_id :: string
  file_remote :: string
  file_createdAt :: int
  file_name :: "string option"
  file_meta :: "RecordingMeta option"
  file_messages :: "RecordedMessage list"

record ActionRecorder =
  rec_id :: string
  rec_remote :: string
  rec_meta :: "RecordingMeta option"
  startedAt :: int
  pausedAt :: "int option"
  pausedDuration :: int
  messages :: "RecordedMessage list"

datatype recorder_error = RecordingIdRequired | FileNotFound | InvalidRecordingFile

definition id_safe :: "char \<Rightarrow> bool" where
  "id_safe c = (let n = (of_char c :: nat) in
      (97 \<le> n \<and> n \<le> 122) \<or> (65 \<le> n \<and> n \<le> 90) \<or> (48 \<le> n \<and> n \<le> 57) \<or> n = 45 \<or> n = 95)"

definition createId :: "int \<Rightarrow> string" where
  "createId now = ''session-'' @ string_of_int now"

definition normalizeId :: "int \<Rightarrow> string option \<Rightarrow> string option" where
  "normalizeId now raw =
     (case raw of
        None \<Rightarrow> None
      | Some r \<Rightarrow>
          (let trimmed = trim r in
           if trimmed = [] then None
           else if trimmed = ''true'' \<or> trimmed = ''1'' then Some (createId now)
           else Some (map (\<lambda>c. if id_safe c then c else CHR ''_'') trimmed)))"

definition encode :: "(byte list \<Rightarrow> string) \<Rightarrow> WsData \<Rightarrow> string \<times> bool" where
  "encode toBase64 d =
     (case d of
        WsString s \<Rightarrow> (s, False)
      | WsBuffer b \<Rightarrow> (toBase64 b, True)
      | WsBufferArray bs \<Rightarrow> (toBase64 (concat bs), True)
      | WsArrayBuffer b \<Rightarrow> (toBase64 b, True))"

definition getElapsed :: "ActionRecorder \<Rightarrow> int \<Rightarrow> int" where
  "getElapsed r now =
     (let pausedDelta = (case pausedAt r of
                            None \<Rightarrow> 0
                          | Some p \<Rightarrow> if p \<noteq> 0 then now - p else 0)
      in now - startedAt r - pausedDuration r - pausedDelta)"

definition capture :: "(byte list \<Rightarrow> string) \<Rightarrow> ActionRecorder \<Rightarrow> int \<Rightarrow> WsData \<Rightarrow> ActionRecorder" where
  "capture toBase64 r now d =
     (let a = getElapsed r now;
          (pl, isBinary) = encode toBase64 d
      in r\<lparr>messages := messages r @ [\<lparr>at_ms = a, data = pl, binary = isBinary\<rparr>]\<rparr>)"

definition recorder_pause :: "ActionRecorder \<Rightarrow> int \<Rightarrow> ActionRecorder" where
  "recorder_pause r now = (if truthy_num (pausedAt r) then r else r\<lparr>pausedAt := Some now\<rparr>)"

definition recorder_resume :: "ActionRecorder \<Rightarrow> int \<Rightarrow> ActionRecorder" where
  "recorder_resume r now =
     (case pausedAt r of
        None \<Rightarrow> r
      | Some p \<Rightarrow> if p = 0 then r
                  else r\<lparr>pausedDuration := pausedDuration r + (now - p), pausedAt := None\<rparr>)"

definition recording_path :: "string \<Rightarrow> string" where
  "recording_path i = ''recordings/'' @ i @ ''.json''"

definition persist :: "(string \<rightharpoonup> RecordingFile) \<Rightarrow> ActionRecorder \<Rightarrow> (string \<rightharpoonup> RecordingFile) \<times> string" where
  "persist fs r =
     (let filePath = recording_path (rec_id r);
          recording = \<lparr>file_id = rec_id r, file_remote = rec_remote r,
                       file_createdAt = startedAt r,
                       file_name = (case rec_meta r of None \<Rightarrow> None | Some m \<Rightarrow> meta_name m),
                       file_meta = rec_meta r,
                       file_messages = messages r\<rparr>
      in (fs(filePath \<mapsto> recording), filePath))"

definition load :: "(string \<rightharpoonup> RecordingFile) \<Rightarrow> int \<Rightarrow> string \<Rightarrow> recorder_error + RecordingFile" where
  "load fs now i =
     (case normalizeId now (Some i) of
        None \<Rightarrow> Inl RecordingIdRequired
      | Some safeId \<Rightarrow>
          (case fs (recording_path safeId) of
             None \<Rightarrow> Inl FileNotFound
           | Some parsed \<Rightarrow>
               (let msgs = sort_key at_ms
                      (map (\<lambda>item. \<lparr>at_ms = (if at_ms item \<noteq> 0 then at_ms item else 0),
                                      data = data item,
                                      binary = binary item\<rparr>) (file_messages parsed))
                in Inr \<lparr>file_id = (if file_id parsed \<noteq> [] then file_id parsed else safeId),
                        file_remote = file_remote parsed,
                        file_createdAt = file_createdAt parsed,
                        file_name = None,
                        file_meta = file_meta parsed,
                        file_messages = msgs\<rparr>)))"

definition decodeMessage :: "(string \<Rightarrow> byte list) \<Rightarrow> RecordedMessage \<Rightarrow> WsData" where
  "decodeMessage fromBase64 m = (if binary m then WsBuffer (fromBase64 (data m)) else WsString (data m))"

section \<open>Sync service\<close>

text \<open>
  \<^verbatim>\<open>SyncService.ts\<close>. The mapping is a \<^verbatim>\<open>Map<string, Set<string>>\<close>: an association list
  in insertion order whose values are duplicate-free lists. An element of the request is
  a string or something else (\<^verbatim>\<open>typeof t === 'string'\<close>); the target is one value or an
  array. \<^verbatim>\<open>Array.from(new Set(xs))\<close> keeps first occurrences in order.
\<close>

datatype JsValue = JsString string | JsOther

datatype TargetArg = TargetOne JsValue | TargetMany "JsValue list"

type_synonym SyncMap = "(string \<times> string list) list"

record SyncState =
  targets :: "string list"
  devices :: "string list"

definition js_set :: "'a list \<Rightarrow> 'a list" where
  "js_set xs = foldl (\<lambda>acc x. if x \<in> set acc then acc else acc @ [x]) [] xs"

definition map_set :: "('k \<times> 'v) list \<Rightarrow> 'k \<Rightarrow> 'v \<Rightarrow> ('k \<times> 'v) list" where
  "map_set m k v = (if k \<in> fst ` set m then map (\<lambda>(k', v'). if k' = k then (k', v) else (k', v')) m
                    else m @ [(k, v)])"

definition trimmed :: "JsValue \<Rightarrow> string" where
  "trimmed v = (case v of JsString s \<Rightarrow> trim s | JsOther \<Rightarrow> [])"

definition sync_list :: "SyncMap \<Rightarrow> SyncState" where
  "sync_list m = \<lparr>targets = map fst m, devices = js_set (concat (map snd m))\<rparr>"

definition setMapping :: "SyncMap \<Rightarrow> TargetArg \<Rightarrow> JsValue list \<Rightarrow> SyncMap \<times> SyncState" where
  "setMapping m target devs =
     (let targetList = (case target of TargetMany ts \<Rightarrow> ts | TargetOne t \<Rightarrow> [t]);
          cleanedTargets = js_set (filter (\<lambda>s. s \<noteq> []) (map trimmed targetList));
          cleanedDevices = js_set (filter (\<lambda>s. s \<noteq> []) (map trimmed devs));
          m = [];
          m = foldl (\<lambda>m t. map_set m t (removeAll t cleanedDevices)) m cleanedTargets
      in (m, sync_list m))"

definition sync_clear :: "SyncMap \<Rightarrow> SyncMap" where
  "sync_clear m = []"

section \<open>Proxy\<close>

text \<open>
  \<^verbatim>\<open>WebsocketProxy.ts\<close>. The downstream socket \<^verbatim>\<open>ws\<close> records the close calls made on
  it; the upstream socket records the frames sent on it while OPEN. A timer is the data
  it was created with. Proxies live in a store indexed by address, since the static
  \<^verbatim>\<open>sessions\<close> map and the sync service reach other proxies by session id; the server
  state also holds the sync mapping, the recording status map and the recordings
  directory. Logging is not modelled. \<^verbatim>\<open>Mw.release\<close> of the base class acts on the
  downstream socket and is an argument of \<^verbatim>\<open>release\<close>.
\<close>

datatype ReadyState = CONNECTING | OPEN | CLOSING | CLOSED

datatype RecordingState = St_stop | St_record | St_run | St_pause

record DownstreamSocket =
  ds_readyState :: ReadyState
  ds_closeCalls :: "(int \<times> string option) list"

record UpstreamSocket =
  us_readyState :: ReadyState
  us_sent :: "WsData list"

record PlaybackTimer =
  timer_delay :: int
  timer_message :: RecordedMessage

record FinishTimer =
  finish_delay :: int
  finish_recordId :: "string option"

record RecordingStatus =
  st_device :: string
  st_status :: RecordingState
  st_recordId :: "string option"
  st_filePath :: "string option"
  st_remote :: "string option"
  st_updatedAt :: int

record WebsocketProxy =
  ws :: DownstreamSocket
  remoteSocket :: "UpstreamSocket option"
  released :: bool
  storage :: "WsData list"
  logMeta :: "RecordingMeta option"
  sessionId :: "string option"
  activeRecordId :: "string option"
  playbackFinishTimer :: "FinishTimer option"
  playbackStart :: "int option"
  playbackElapsed :: int
  recordingPaused :: bool
  playbackPaused :: bool
  remoteUrl :: "string option"
  recorder :: "ActionRecorder option"
  playback :: "RecordingFile option"
  playbackTimers :: "PlaybackTimer list"
  currentState :: RecordingState

record Server =
  proxies :: "nat \<rightharpoonup> WebsocketProxy"
  sessions :: "string \<rightharpoonup> nat"
  syncMapping :: SyncMap
  statuses :: "(string \<times> RecordingStatus) list"
  recordings :: "string \<rightharpoonup> RecordingFile"

datatype proxy_error = AlreadyPaused | NothingToPause | CannotResumeWhenNotPaused | NothingToResume

datatype PauseMode = ModeRecord | ModeRun

definition ws_close :: "DownstreamSocket \<Rightarrow> int \<Rightarrow> string option \<Rightarrow> DownstreamSocket" where
  "ws_close s code reason =
     s\<lparr>ds_readyState := CLOSING, ds_closeCalls := ds_closeCalls s @ [(code, reason)]\<rparr>"

definition us_send :: "UpstreamSocket \<Rightarrow> WsData \<Rightarrow> UpstreamSocket" where
  "us_send s d = (if us_readyState s = OPEN then s\<lparr>us_sent := us_sent s @ [d]\<rparr> else s)"

definition us_close :: "UpstreamSocket \<Rightarrow> UpstreamSocket" where
  "us_close s = (if us_readyState s = CLOSED then s else s\<lparr>us_readyState := CLOSING\<rparr>)"

definition remoteSocket_onclose :: "WebsocketProxy \<Rightarrow> bool \<Rightarrow> WebsocketProxy" where
  "remoteSocket_onclose p wasClean =
     (if ds_readyState (ws p) = OPEN
      then p\<lparr>ws := ws_close (ws p) (if wasClean then 1000 else 4010) None\<rparr>
      else p)"

definition remoteSocket_onerror :: "WebsocketProxy \<Rightarrow> string \<Rightarrow> WebsocketProxy" where
  "remoteSocket_onerror p message =
     (if ds_readyState (ws p) = OPEN
      then p\<lparr>ws := ws_close (ws p) 4011 (Some message)\<rparr>
      else p)"

definition flush :: "WebsocketProxy \<Rightarrow> WebsocketProxy" where
  "flush p =
     (case remoteSocket p of
        None \<Rightarrow> p\<lparr>storage := []\<rparr>
      | Some rs \<Rightarrow>
          (let rs = foldl us_send rs (storage p);
               rs = (if released p then us_close rs else rs)
           in p\<lparr>remoteSocket := Some rs, storage := []\<rparr>))"

definition stopPlayback :: "WebsocketProxy \<Rightarrow> bool \<Rightarrow> WebsocketProxy" where
  "stopPlayback p resetProgress =
     (let p = p\<lparr>playbackTimers := [], playbackFinishTimer := None, playbackStart := None\<rparr>
      in if resetProgress then p\<lparr>playbackPaused := False, playbackElapsed := 0\<rparr> else p)"

definition persistRecording :: "Server \<Rightarrow> WebsocketProxy \<Rightarrow> Server" where
  "persistRecording g p =
     (case recorder p of
        None \<Rightarrow> g
      | Some r \<Rightarrow> g\<lparr>recordings := fst (persist (recordings g) r)\<rparr>)"

definition clearDevice :: "(string \<times> RecordingStatus) list \<Rightarrow> string \<Rightarrow> (string \<times> RecordingStatus) list" where
  "clearDevice sts dev = (if dev \<in> fst ` set sts then filter (\<lambda>(k, v). k \<noteq> dev) sts else sts)"

definition release ::
  "(DownstreamSocket \<Rightarrow> DownstreamSocket) \<Rightarrow> Server \<Rightarrow> WebsocketProxy \<Rightarrow> Server \<times> WebsocketProxy" where
  "release mw_release g p =
     (if released p then (g, p)
      else
        (let p = p\<lparr>ws := mw_release (ws p)\<rparr>;
             p = p\<lparr>released := True\<rparr>;
             p = stopPlayback p True;
             g = persistRecording g p;
             p = flush p
         in case sessionId p of
              None \<Rightarrow> (g, p)
            | Some sid \<Rightarrow>
                if sid \<noteq> []
                then (g\<lparr>sessions := (sessions g)(sid := None),
                        statuses := clearDevice (statuses g) sid,
                        syncMapping := sync_clear (syncMapping g)\<rparr>, p)
                else (g, p)))"

definition setStatus :: "(string \<times> RecordingStatus) list \<Rightarrow> RecordingStatus \<Rightarrow> (string \<times> RecordingStatus) list" where
  "setStatus sts fullStatus = map_set sts (st_device fullStatus) fullStatus"

definition updateStatus ::
  "Server \<Rightarrow> WebsocketProxy \<Rightarrow> int \<Rightarrow> RecordingState \<Rightarrow> string option \<Rightarrow> string option \<Rightarrow> int
     \<Rightarrow> Server \<times> WebsocketProxy" where
  "updateStatus g p now state recordId filePath offsetMs =
     (let p = p\<lparr>currentState := state\<rparr>
      in case sessionId p of
           None \<Rightarrow> (g, p)
         | Some sid \<Rightarrow>
             if sid = [] then (g, p)
             else
               (let g = g\<lparr>statuses := setStatus (statuses g)
                          \<lparr>st_device = sid, st_status = state, st_recordId = recordId,
                           st_filePath = filePath, st_remote = remoteUrl p, st_updatedAt = now\<rparr>\<rparr>
                in case playback p of
                     None \<Rightarrow> (g, p)
                   | Some pb \<Rightarrow>
                       if state = St_run
                       then (let lastAt = (case file_messages pb of [] \<Rightarrow> 0 | ms \<Rightarrow> at_ms (last ms));
                                 finishMs = max 0 (lastAt - offsetMs + 200)
                             in if finishMs > 0
                                then (g, p\<lparr>playbackFinishTimer :=
                                            Some \<lparr>finish_delay = finishMs, finish_recordId = recordId\<rparr>\<rparr>)
                                else (g, p))
                       else (g, p)))"

definition schedulePlayback ::
  "Server \<Rightarrow> WebsocketProxy \<Rightarrow> int \<Rightarrow> RecordingFile \<Rightarrow> int \<Rightarrow> Server \<times> WebsocketProxy" where
  "schedulePlayback g p now pb offsetMs =
     (let p = stopPlayback p True;
          p = p\<lparr>playback := Some pb, playbackStart := Some now\<rparr>;
          (g, p) = updateStatus g p now St_run (Some (file_id pb)) None offsetMs;
          timers = map (\<lambda>m. \<lparr>timer_delay = max 0 (at_ms m - offsetMs), timer_message = m\<rparr>)
                     (filter (\<lambda>m. \<not> at_ms m < offsetMs) (file_messages pb))
      in (g, p\<lparr>playbackTimers := playbackTimers p @ timers\<rparr>))"

definition pausePlayback :: "Server \<Rightarrow> WebsocketProxy \<Rightarrow> int \<Rightarrow> Server \<times> WebsocketProxy" where
  "pausePlayback g p now =
     (case playback p of
        None \<Rightarrow> (g, p)
      | Some pb \<Rightarrow>
          if playbackPaused p then (g, p)
          else
            (let p = (case playbackStart p of
                        None \<Rightarrow> p
                      | Some s \<Rightarrow> if s \<noteq> 0 then p\<lparr>playbackElapsed := playbackElapsed p + (now - s)\<rparr> else p);
                 p = stopPlayback p False;
                 p = p\<lparr>playbackPaused := True\<rparr>
             in updateStatus g p now St_pause (Some (file_id pb)) None 0))"

definition resumePlayback :: "Server \<Rightarrow> WebsocketProxy \<Rightarrow> int \<Rightarrow> Server \<times> WebsocketProxy" where
  "resumePlayback g p now =
     (case playback p of
        None \<Rightarrow> (g, p)
      | Some pb \<Rightarrow>
          (case remoteSocket p of
             None \<Rightarrow> (g, p)
           | Some rs \<Rightarrow>
               if \<not> playbackPaused p \<or> us_readyState rs \<noteq> OPEN then (g, p)
               else (let p = p\<lparr>playbackPaused := False\<rparr>
                     in schedulePlayback g p now pb (playbackElapsed p))))"

definition proxy_pause ::
  "Server \<Rightarrow> WebsocketProxy \<Rightarrow> int \<Rightarrow> proxy_error + (Server \<times> WebsocketProxy \<times> PauseMode)" where
  "proxy_pause g p now =
     (if currentState p = St_pause then Inl AlreadyPaused
      else if currentState p = St_stop then Inl NothingToPause
      else if recorder p \<noteq> None \<and> \<not> recordingPaused p
      then (let p = p\<lparr>recordingPaused := True\<rparr>;
                p = p\<lparr>recorder := map_option (\<lambda>r. recorder_pause r now) (recorder p)\<rparr>;
                (g, p) = updateStatus g p now St_pause (activeRecordId p) None 0
            in Inr (g, p, ModeRecord))
      else if playback p \<noteq> None \<and> \<not> playbackPaused p
      then (let (g, p) = pausePlayback g p now in Inr (g, p, ModeRun))
      else Inl NothingToPause)"

definition proxy_resume ::
  "Server \<Rightarrow> WebsocketProxy \<Rightarrow> int \<Rightarrow> proxy_error + (Server \<times> WebsocketProxy \<times> PauseMode)" where
  "proxy_resume g p now =
     (if currentState p \<noteq> St_pause then Inl CannotResumeWhenNotPaused
      else if recorder p \<noteq> None \<and> recordingPaused p
      then (let p = p\<lparr>recordingPaused := False\<rparr>;
                p = p\<lparr>recorder := map_option (\<lambda>r. recorder_resume r now) (recorder p)\<rparr>;
                (g, p) = updateStatus g p now St_record (activeRecordId p) None 0
            in Inr (g, p, ModeRecord))
      else if playback p \<noteq> None \<and> playbackPaused p
      then (let (g, p) = resumePlayback g p now in Inr (g, p, ModeRun))
      else Inl NothingToResume)"

definition forwardFromSync :: "WebsocketProxy \<Rightarrow> WsData \<Rightarrow> WebsocketProxy" where
  "forwardFromSync p d =
     (case remoteSocket p of
        Some rs \<Rightarrow> p\<lparr>remoteSocket := Some (us_send rs d)\<rparr>
      | None \<Rightarrow> p\<lparr>storage := storage p @ [d]\<rparr>)"

definition mirror :: "Server \<Rightarrow> string \<Rightarrow> WsData \<Rightarrow> Server" where
  "mirror g source d =
     (case map_of (syncMapping g) source of
        None \<Rightarrow> g
      | Some tgts \<Rightarrow>
          foldl (\<lambda>g device.
                   case sessions g device of
                     None \<Rightarrow> g
                   | Some b \<Rightarrow>
                       (case proxies g b of
                          None \<Rightarrow> g
                        | Some q \<Rightarrow> g\<lparr>proxies := (proxies g)(b \<mapsto> forwardFromSync q d)\<rparr>))
                g tgts)"

definition onSocketMessage :: "(byte list \<Rightarrow> string) \<Rightarrow> Server \<Rightarrow> nat \<Rightarrow> int \<Rightarrow> WsData \<Rightarrow> Server" where
  "onSocketMessage toBase64 g a now d =
     (case proxies g a of
        None \<Rightarrow> g
      | Some p \<Rightarrow>
          (let p = (if \<not> recordingPaused p
                    then p\<lparr>recorder := map_option (\<lambda>r. capture toBase64 r now d) (recorder p)\<rparr>
                    else p);
               p = (case remoteSocket p of
                      Some rs \<Rightarrow> p\<lparr>remoteSocket := Some (us_send rs d)\<rparr>
                    | None \<Rightarrow> p\<lparr>storage := storage p @ [d]\<rparr>);
               g = g\<lparr>proxies := (proxies g)(a \<mapsto> p)\<rparr>
           in case sessionId p of
                None \<Rightarrow> g
              | Some sid \<Rightarrow> if sid \<noteq> [] then mirror g sid d else g))"

text \<open>
  The constructor of \<^verbatim>\<open>WebsocketProxy\<close> (field initialisers and the session id
  \<^verbatim>\<open>session || logMeta?.device || undefined\<close>; the entry in \<^verbatim>\<open>sessions\<close> is written by
  the example server state), the constructor of \<^verbatim>\<open>ActionRecorder\<close>, and the states used
  in the examples below.
\<close>

definition new_proxy :: "DownstreamSocket \<Rightarrow> RecordingMeta option \<Rightarrow> string option \<Rightarrow> WebsocketProxy" where
  "new_proxy sock meta session =
     \<lparr>ws = sock, remoteSocket = None, released = False, storage = [],
      logMeta = meta,
      sessionId = (if truthy_str session then session
                   else case meta of
                          None \<Rightarrow> None
                        | Some m \<Rightarrow> if truthy_str (meta_device m) then meta_device m else None),
      activeRecordId = None, playbackFinishTimer = None, playbackStart = None,
      playbackElapsed = 0, recordingPaused = False, playbackPaused = False,
      remoteUrl = None, recorder = None, playback = None, playbackTimers = [],
      currentState = St_stop\<rparr>"

definition open_socket :: DownstreamSocket where
  "open_socket = \<lparr>ds_readyState = OPEN, ds_closeCalls = []\<rparr>"

definition new_recorder :: "string \<Rightarrow> string \<Rightarrow> RecordingMeta option \<Rightarrow> int \<Rightarrow> ActionRecorder" where
  "new_recorder i remote meta now =
     \<lparr>rec_id = i, rec_remote = remote, rec_meta = meta, startedAt = now,
      pausedAt = None, pausedDuration = 0, messages = []\<rparr>"

text \<open>
  The specification's words for the inputs of \<^verbatim>\<open>setMapping\<close>: the list of targets, and
  the set of trimmed non-empty strings of a list of values.
\<close>

definition target_list :: "TargetArg \<Rightarrow> JsValue list" where
  "target_list target = (case target of TargetMany ts \<Rightarrow> ts | TargetOne t \<Rightarrow> [t])"

definition cleaned :: "JsValue list \<Rightarrow> string set" where
  "cleaned vs = {s \<in> trimmed ` set vs. s \<noteq> []}"

definition demo_server :: "WebsocketProxy \<Rightarrow> Server" where
  "demo_server q = \<lparr>proxies = [0 \<mapsto> q], sessions = [''A'' \<mapsto> 0],
                    syncMapping = [(''B'', [''C''])], statuses = [], recordings = Map.empty\<rparr>"

definition demo_recorder :: ActionRecorder where
  "demo_recorder = new_recorder ''demo'' ''ws://127.0.0.1:8886'' None 0"

definition paused_proxy :: WebsocketProxy where
  "paused_proxy = (new_proxy open_socket None (Some ''A''))
                    \<lparr>recordingPaused := True, recorder := Some (recorder_pause demo_recorder 200)\<rparr>"

definition demo_recording :: ActionRecorder where
  "demo_recording = (new_recorder ''demo'' ''ws://127.0.0.1:8886'' None 1000)
     \<lparr>messages := [\<lparr>at_ms = 0, data = ''a'', binary = False\<rparr>,
                   \<lparr>at_ms = 250, data = ''AQI='', binary = True\<rparr>]\<rparr>"

section \<open>Multiplexer channels (\<^verbatim>\<open>MuxChannel\<close>)\<close>

text \<open>
  \<^verbatim>\<open>adbStub.ts\<close>. A channel is seen together with its chain of parents up to the root,
  which owns the raw \<^verbatim>\<open>WebSocket\<close>; an operation returns the updated chain and the error
  thrown, if any. The registry \<^verbatim>\<open>channels\<close> is the set of its keys. The queue
  \<^verbatim>\<open>storage\<close> is kept for the root only: the one push into it is guarded by
  \<^verbatim>\<open>this.ws instanceof WebSocket\<close>, so a child's queue stays empty and \<^verbatim>\<open>_send\<close>
  (here \<open>raw_send\<close>) is reached through the root alone. A browser \<^verbatim>\<open>WebSocket.send\<close>
  throws while CONNECTING and drops the data while CLOSING or CLOSED. The listeners for
  the socket's events, the microtask that opens a locally created child and the
  \<^verbatim>\<open>channel\<close> event are not modelled.
\<close>

datatype Payload = PStr string | PBin "byte list"

record RawSocket =
  sock_readyState :: ReadyState
  sock_sent :: "Payload list"

record ChannelState =
  ch_readyState :: ReadyState
  ch_channels :: "int set"
  ch_nextId :: int

datatype MuxChannel =
    Root ChannelState "Payload list" RawSocket
  | Child int ChannelState MuxChannel

definition utf8_encode :: "string \<Rightarrow> byte list" where
  "utf8_encode s = concat (map (\<lambda>c. let n = (of_char c :: nat) in
       if n < 128 then [of_nat n] else [of_nat (192 + n div 64), of_nat (128 + n mod 64)]) s)"

definition sock_send :: "RawSocket \<Rightarrow> Payload \<Rightarrow> RawSocket \<times> mux_error option" where
  "sock_send sock d =
     (if sock_readyState sock = CONNECTING then (sock, Some InvalidStateError)
      else if sock_readyState sock = OPEN then (sock\<lparr>sock_sent := sock_sent sock @ [d]\<rparr>, None)
      else (sock, None))"

definition raw_send ::
  "ChannelState \<Rightarrow> Payload list \<Rightarrow> RawSocket \<Rightarrow> Payload
     \<Rightarrow> (Payload list \<times> RawSocket) \<times> mux_error option" where
  "raw_send st q sock d =
     (if ch_readyState st = OPEN
      then (let (sock', e) = sock_send sock d in ((q, sock'), e))
      else if ch_readyState st = CONNECTING
      then ((q @ [d], sock), None)
      else ((q, sock), Some SocketClosingOrClosed))"

fun sendData :: "MuxChannel \<Rightarrow> byte list \<Rightarrow> MuxChannel \<times> mux_error option" where
  "sendData (Child i st parent) u8 =
     (let frame = createBuffer (type_code Data) i (Some u8);
          (parent', e) = sendData parent frame
      in (Child i st parent', e))"
| "sendData (Root st q sock) u8 =
     (case raw_send st q sock (PBin u8) of ((q', sock'), e) \<Rightarrow> (Root st q' sock', e))"

fun send :: "MuxChannel \<Rightarrow> Payload \<Rightarrow> MuxChannel \<times> mux_error option" where
  "send (Child i st parent) d =
     (let (parent', e) =
            (case d of
               PStr s \<Rightarrow> sendData parent (createBuffer (type_code RawStringData) i (Some (utf8_encode s)))
             | PBin u8 \<Rightarrow> sendData parent (createBuffer (type_code RawBinaryData) i (Some u8)))
      in (Child i st parent', e))"
| "send (Root st q sock) d =
     (case raw_send st q sock d of ((q', sock'), e) \<Rightarrow> (Root st q' sock', e))"

text \<open>
  \<^verbatim>\<open>getNextId\<close>: the loop pre-increments \<^verbatim>\<open>nextId\<close> and tests the registry; the result
  is the final value of the field \<^verbatim>\<open>nextId\<close> together with the id returned or the error
  thrown. It always returns: every call either raises \<open>hitTop\<close> or brings the counter
  closer to \<open>2^32 - 1\<close>.
\<close>

function getNextId_loop :: "int set \<Rightarrow> int \<Rightarrow> bool \<Rightarrow> int \<times> (mux_error + int)" where
  "getNextId_loop chs nextId hitTop =
     (let nextId = nextId + 1
      in if nextId \<in> chs
         then (if nextId \<ge> 4294967295
               then (if hitTop then (nextId, Inl NoAvailableChannelId)
                     else getNextId_loop chs 0 True)
               else getNextId_loop chs nextId hitTop)
         else (nextId, Inr nextId))"
  by pat_completeness auto

termination
  by (relation "measures [\<lambda>(chs, n, h). if h then 0 else 1, \<lambda>(chs, n, h). nat (4294967295 - n)]") auto

declare getNextId_loop.simps [simp del]

definition getNextId :: "int set \<Rightarrow> int \<Rightarrow> int \<times> (mux_error + int)" where
  "getNextId chs nextId = getNextId_loop chs nextId False"

definition channel_state :: "MuxChannel \<Rightarrow> ChannelState" where
  "channel_state c = (case c of Root st q sock \<Rightarrow> st | Child i st parent \<Rightarrow> st)"

definition with_state :: "MuxChannel \<Rightarrow> ChannelState \<Rightarrow> MuxChannel" where
  "with_state c st = (case c of Root _ q sock \<Rightarrow> Root st q sock | Child i _ parent \<Rightarrow> Child i st parent)"

text \<open>
  \<^verbatim>\<open>createChannel\<close> and the \<^verbatim>\<open>CreateChannel\<close> case of the message listener. The new child
  is returned with the updated parent chain; a locally created child starts CONNECTING,
  an announced one takes its parent's state.
\<close>

definition createChannel :: "MuxChannel \<Rightarrow> byte list \<Rightarrow> MuxChannel \<times> (mux_error + MuxChannel)" where
  "createChannel c initData =
     (let st = channel_state c
      in if ch_readyState st = CLOSING \<or> ch_readyState st = CLOSED
         then (c, Inl IncorrectSocketState)
         else
           (case getNextId (ch_channels st) (ch_nextId st) of
              (n, Inl e) \<Rightarrow> (with_state c (st\<lparr>ch_nextId := n\<rparr>), Inl e)
            | (n, Inr i) \<Rightarrow>
                (let c = with_state c (st\<lparr>ch_nextId := n, ch_channels := insert i (ch_channels st)\<rparr>);
                     (c, e) = sendData c (createBuffer (type_code CreateChannel) i (Some initData))
                 in case e of
                      Some err \<Rightarrow> (c, Inl err)
                    | None \<Rightarrow>
                        (c, Inr (Child i \<lparr>ch_readyState = CONNECTING, ch_channels = {}, ch_nextId = 0\<rparr> c)))))"

definition onCreateChannel :: "MuxChannel \<Rightarrow> int \<Rightarrow> MuxChannel \<times> MuxChannel" where
  "onCreateChannel c cid =
     (let st = channel_state c;
          st = (if ch_nextId st < cid then st\<lparr>ch_nextId := cid\<rparr> else st);
          st = st\<lparr>ch_channels := insert cid (ch_channels st)\<rparr>;
          c = with_state c st
      in (c, Child cid \<lparr>ch_readyState = ch_readyState st, ch_channels = {}, ch_nextId = 0\<rparr> c))"

text \<open>
  The root of a channel's chain, its state and its queue: used to state what a send does.
\<close>

fun root_of :: "MuxChannel \<Rightarrow> MuxChannel" where
  "root_of (Root st q sock) = Root st q sock"
| "root_of (Child i st parent) = root_of parent"

definition root_readyState :: "MuxChannel \<Rightarrow> ReadyState" where
  "root_readyState c = (case root_of c of Root st q sock \<Rightarrow> ch_readyState st | Child i st p \<Rightarrow> ch_readyState st)"

definition root_storage :: "MuxChannel \<Rightarrow> Payload list" where
  "root_storage c = (case root_of c of Root st q sock \<Rightarrow> q | Child i st p \<Rightarrow> [])"

definition fresh_root :: "ReadyState \<Rightarrow> MuxChannel" where
  "fresh_root rs = Root \<lparr>ch_readyState = rs, ch_channels = {}, ch_nextId = 0\<rparr> []
                        \<lparr>sock_readyState = rs, sock_sent = []\<rparr>"

definition top_announced :: MuxChannel where
  "top_announced = fst (onCreateChannel (fresh_root OPEN) 4294967295)"


section \<open>Connection controller (\<^verbatim>\<open>/api/devices/connect\<close>)\<close>

text \<open>
  \<^verbatim>\<open>HttpServer.ts\<close>, the Wi-Fi branch of \<^verbatim>\<open>/api/devices/connect\<close>. Every \<^verbatim>\<open>adb\<close>
  invocation of one switch is answered by an environment \<open>env\<close>: invocation 0 is
  \<^verbatim>\<open>tcpip\<close>, invocations 1 to 3 are the \<^verbatim>\<open>connect\<close> attempts; an answer has the exit
  status, both output streams, the error message and the time the command took. The
  run is the list of commands issued and delays awaited, with the time elapsed.
  \<^verbatim>\<open>Promise.race\<close> against the 10 s timer gives the run's own result when the run ends
  first and the time-out error when the timer does; which one wins an exact tie is an
  argument, and the timer does not cancel the run. The look-ups
  \<^verbatim>\<open>DeviceListSocket.getSerial\<close> and \<^verbatim>\<open>getDeviceIp\<close> are arguments. The device id is the
  trimmed, non-empty one the handler has already checked. A port is a JavaScript number,
  kept abstract: its type is a parameter, and \<^verbatim>\<open>parseInt(s, 10)\<close>, truthiness (neither 0
  nor NaN), the test \<^verbatim>\<open>> 0\<close>, printing in a template literal and the literal 5555 are
  the fields of \<open>NumberOps\<close>.
\<close>

definition toLowerCase :: "string \<Rightarrow> string" where
  "toLowerCase s = map (\<lambda>c. let n = (of_char c :: nat) in
       if (65 \<le> n \<and> n \<le> 90) \<or> (192 \<le> n \<and> n \<le> 222 \<and> n \<noteq> 215) then char_of (n + 32) else c) s"

fun str_includes :: "string \<Rightarrow> string \<Rightarrow> bool" where
  "str_includes [] sub = (sub = [])"
| "str_includes (x # xs) sub = (take (length sub) (x # xs) = sub \<or> str_includes xs sub)"

record ExecResult =
  exec_ok :: bool
  exec_stdout :: string
  exec_stderr :: string
  exec_message :: string
  exec_duration :: nat

datatype AdbEvent = Exec "string list" | Delay nat

definition runAdbCommand :: "ExecResult \<Rightarrow> string \<Rightarrow> string + string" where
  "runAdbCommand res label =
     (let out = trim (exec_stdout res @ [char_of (10::nat)] @ exec_stderr res)
      in if exec_ok res then Inr out
         else Inl (if out \<noteq> [] then out
                   else if exec_message res \<noteq> [] then exec_message res
                   else label @ '' failed''))"

definition connect_accepted :: "string \<Rightarrow> bool" where
  "connect_accepted out =
     (str_includes (toLowerCase out) ''connected to'' \<or> str_includes (toLowerCase out) ''already connected'')"

text \<open>
  The retry loop of \<^verbatim>\<open>connectOverWifi\<close>: \<open>i\<close> counts the attempts made, \<open>conn\<close> is the
  flag \<^verbatim>\<open>connected\<close>; the result is the commands and delays so far, the time elapsed,
  the flag and \<^verbatim>\<open>lastError\<close>.
\<close>

function connect_loop ::
  "(nat \<Rightarrow> ExecResult) \<Rightarrow> string \<Rightarrow> nat \<Rightarrow> bool \<Rightarrow> AdbEvent list \<Rightarrow> nat \<Rightarrow> string option
     \<Rightarrow> AdbEvent list \<times> nat \<times> bool \<times> string option" where
  "connect_loop env target i conn events elapsed lastError =
     (if i < 3 \<and> \<not> conn
      then (let res = env (Suc i);
                events = events @ [Exec [''connect'', target]];
                elapsed = elapsed + exec_duration res
            in case runAdbCommand res ''adb connect'' of
                 Inr out \<Rightarrow>
                   if connect_accepted out
                   then (events, elapsed, True, Some out)
                   else connect_loop env target (Suc i) conn
                          (events @ [Delay 400]) (elapsed + 400) (Some out)
               | Inl msg \<Rightarrow>
                   connect_loop env target (Suc i) conn
                     (events @ [Delay 400]) (elapsed + 400) (Some msg))
      else (events, elapsed, conn, lastError))"
  by pat_completeness auto

termination
  by (relation "measure (\<lambda>(env, target, i, conn, events, elapsed, lastError). 3 - i)") auto

declare connect_loop.simps [simp del]

record 'n NumberOps =
  num_parseInt :: "string \<Rightarrow> 'n"
  num_truthy :: "'n \<Rightarrow> bool"
  num_positive :: "'n \<Rightarrow> bool"
  num_print :: "'n \<Rightarrow> string"
  num_5555 :: 'n

definition connectOverWifi ::
  "'n NumberOps \<Rightarrow> (nat \<Rightarrow> ExecResult) \<Rightarrow> string \<Rightarrow> 'n \<Rightarrow> string
     \<Rightarrow> AdbEvent list \<times> nat \<times> (string + unit)" where
  "connectOverWifi ops env uuid targetPort target =
     (let res = env 0;
          events = [Exec [''-s'', uuid, ''tcpip'', num_print ops targetPort]];
          elapsed = exec_duration res
      in case runAdbCommand res ''adb tcpip'' of
           Inl msg \<Rightarrow> (events, elapsed, Inl msg)
         | Inr out \<Rightarrow>
             (case connect_loop env target 0 False (events @ [Delay 400]) (elapsed + 400) None of
                (events, elapsed, conn, lastError) \<Rightarrow>
                  (events, elapsed,
                   if \<not> conn
                   then Inl (case lastError of
                               None \<Rightarrow> ''Failed to connect over WiFi''
                             | Some e \<Rightarrow> if e \<noteq> [] then e else ''Failed to connect over WiFi'')
                   else Inr ())))"

definition TIMEOUT_MS :: nat where
  "TIMEOUT_MS = 10000"

definition race_timeout :: "bool \<Rightarrow> AdbEvent list \<times> nat \<times> (string + unit) \<Rightarrow> string + unit" where
  "race_timeout timer_wins_tie run =
     (case run of (events, elapsed, result) \<Rightarrow>
        if elapsed < TIMEOUT_MS \<or> (elapsed = TIMEOUT_MS \<and> \<not> timer_wins_tie) then result
        else Inl ''WiFi connection timed out after 10 seconds'')"

definition split_colon :: "string \<Rightarrow> string list" where
  "split_colon s = foldr (\<lambda>c parts. if c = CHR '':'' then [] # parts
                                     else (c # hd parts) # tl parts) s [[]]"

record SwitchResult =
  sw_events :: "AdbEvent list"
  sw_success :: bool
  sw_error :: "string option"
  sw_preference :: "(string \<times> string) option"

definition switchToWifi ::
  "'n NumberOps \<Rightarrow> (string \<Rightarrow> string option) \<Rightarrow> (string \<Rightarrow> string option)
     \<Rightarrow> (nat \<Rightarrow> ExecResult) \<Rightarrow> bool \<Rightarrow> string \<Rightarrow> 'n option \<Rightarrow> SwitchResult" where
  "switchToWifi ops getSerial getDeviceIp env timer_wins_tie deviceStr portRaw =
     (let failed = (\<lambda>events msg. \<lparr>sw_events = events, sw_success = False,
                       sw_error = Some (if msg \<noteq> [] then msg else ''Failed to switch connection''),
                       sw_preference = None\<rparr>);
          portFromBody = (case portRaw of
                            None \<Rightarrow> None
                          | Some n \<Rightarrow> if num_positive ops n then Some n else None);
          hasColon = (CHR '':'' \<in> set deviceStr);
          parts = split_colon deviceStr;
          portFromDevice =
            (if hasColon \<and> parts ! 1 \<noteq> []
             then (let n = num_parseInt ops (parts ! 1)
                   in if num_truthy ops n then Some n else None)
             else None);
          targetPort = (case portFromBody of
                          Some n \<Rightarrow> n
                        | None \<Rightarrow> (case portFromDevice of Some n \<Rightarrow> n | None \<Rightarrow> num_5555 ops));
          uuid = (if hasColon then getSerial deviceStr else Some deviceStr)
      in case uuid of
           None \<Rightarrow> failed [] ''Unable to resolve device uuid''
         | Some uuid \<Rightarrow>
             if uuid = [] then failed [] ''Unable to resolve device uuid''
             else
               (let hostPart = (if hasColon then parts ! 0 else []);
                    target = (if hostPart \<noteq> [] then Some (hostPart @ '':'' @ num_print ops targetPort)
                              else (case getDeviceIp uuid of
                                      None \<Rightarrow> None
                                    | Some ip \<Rightarrow> if ip = [] then None
                                                 else Some (ip @ '':'' @ num_print ops targetPort)))
                in case target of
                     None \<Rightarrow> failed [] ''Unable to resolve device ip''
                   | Some target \<Rightarrow>
                       (let run = connectOverWifi ops env uuid targetPort target
                        in case race_timeout timer_wins_tie run of
                             Inl msg \<Rightarrow> failed (fst run) msg
                           | Inr _ \<Rightarrow> \<lparr>sw_events = fst run, sw_success = True, sw_error = None,
                                       sw_preference = Some (uuid, ''wifi'')\<rparr>)))"

text \<open>
  Names for the statements about a run: whether attempt \<open>i\<close> is accepted, its output
  (or error message), the two commands, the port, the port read from a device id and the
  outcome of the race. The examples are runs with the port 5555 and device ids without
  a port: \<open>small_int_ops\<close> gives them integers for numbers and the decimal numeral for
  their printing, which is how a template literal prints 5555; \<^verbatim>\<open>parseInt\<close> is not called
  in them, and its field there is a constant that no example reads.
\<close>

definition attempt_accepted :: "(nat \<Rightarrow> ExecResult) \<Rightarrow> nat \<Rightarrow> bool" where
  "attempt_accepted env i =
     (case runAdbCommand (env i) ''adb connect'' of Inr out \<Rightarrow> connect_accepted out | Inl msg \<Rightarrow> False)"

definition attempt_output :: "(nat \<Rightarrow> ExecResult) \<Rightarrow> nat \<Rightarrow> string" where
  "attempt_output env i =
     (case runAdbCommand (env i) ''adb connect'' of Inr out \<Rightarrow> out | Inl msg \<Rightarrow> msg)"

definition tcpip_event :: "string \<Rightarrow> string \<Rightarrow> AdbEvent" where
  "tcpip_event uuid portText = Exec [''-s'', uuid, ''tcpip'', portText]"

definition connect_event :: "string \<Rightarrow> AdbEvent" where
  "connect_event target = Exec [''connect'', target]"

definition demo_env :: "nat \<Rightarrow> ExecResult" where
  "demo_env i =
     (if i = 0 then \<lparr>exec_ok = True, exec_stdout = ''restarting in TCP mode port: 5555'',
                     exec_stderr = [], exec_message = [], exec_duration = 100\<rparr>
      else if i = 1 then \<lparr>exec_ok = True, exec_stdout = ''failed to connect to 192.168.1.5:5555'',
                          exec_stderr = [], exec_message = [], exec_duration = 100\<rparr>
      else \<lparr>exec_ok = True, exec_stdout = ''connected to 192.168.1.5:5555'',
            exec_stderr = [], exec_message = [], exec_duration = 100\<rparr>)"

definition wifi_port :: "'n NumberOps \<Rightarrow> 'n option \<Rightarrow> 'n option \<Rightarrow> 'n" where
  "wifi_port ops portRaw portFromDevice =
     (case (case portRaw of None \<Rightarrow> None | Some n \<Rightarrow> if num_positive ops n then Some n else None) of
        Some n \<Rightarrow> n
      | None \<Rightarrow> (case portFromDevice of Some n \<Rightarrow> n | None \<Rightarrow> num_5555 ops))"

definition device_port :: "'n NumberOps \<Rightarrow> string \<Rightarrow> 'n option" where
  "device_port ops rest =
     (if hd (split_colon rest) \<noteq> [] \<and> num_truthy ops (num_parseInt ops (hd (split_colon rest)))
      then Some (num_parseInt ops (hd (split_colon rest))) else None)"

definition small_int_ops :: "int NumberOps" where
  "small_int_ops = \<lparr>num_parseInt = (\<lambda>s. 0), num_truthy = (\<lambda>n. n \<noteq> 0),
                     num_positive = (\<lambda>n. 0 < n), num_print = string_of_int, num_5555 = 5555\<rparr>"

definition switch_outcome :: "bool \<Rightarrow> string \<Rightarrow> AdbEvent list \<times> nat \<times> (string + unit) \<Rightarrow> SwitchResult" where
  "switch_outcome timer_wins_tie uuid run =
     (case race_timeout timer_wins_tie run of
        Inl msg \<Rightarrow> \<lparr>sw_events = fst run, sw_success = False,
                     sw_error = Some (if msg \<noteq> [] then msg else ''Failed to switch connection''),
                     sw_preference = None\<rparr>
      | Inr u \<Rightarrow> \<lparr>sw_events = fst run, sw_success = True, sw_error = None,
                   sw_preference = Some (uuid, ''wifi'')\<rparr>)"


section \<open>Facts about bytes\<close>

lemma uint_byte: "uint (word_of_int k :: byte) = k mod 256"
  by (simp add: uint_word_of_int)

lemma base256_digits:
  fixes n :: int
  shows "n mod 256 + 256 * (n div 256 mod 256) + 65536 * (n div 65536 mod 256)
         + 16777216 * (n div 16777216) = n"
proof -
  define q1 where "q1 = n div 256"
  define q2 where "q2 = q1 div 256"
  define q3 where "q3 = q2 div 256"
  have d2: "n div 65536 = q2"
    using zdiv_zmult2_eq [of 256 n 256] by (simp add: q1_def q2_def)
  have d3: "n div 16777216 = q3"
    using zdiv_zmult2_eq [of 256 "n div 256" 256] zdiv_zmult2_eq [of 65536 n 256] d2
    by (simp add: q1_def q2_def q3_def)
  have e1: "n = n mod 256 + 256 * q1" by (simp add: q1_def)
  have e2: "q1 = q1 mod 256 + 256 * q2" by (simp add: q2_def)
  have e3: "q2 = q2 mod 256 + 256 * q3" by (simp add: q3_def)
  have "n mod 256 + 256 * (q1 mod 256) + 65536 * (q2 mod 256) + 16777216 * q3 = n"
    using e1 e2 e3 by linarith
  then show ?thesis by (simp add: d2 d3 q1_def [symmetric])
qed

lemma top_byte_small:
  fixes n :: int
  assumes "0 \<le> n" "n < 4294967296"
  shows "n div 16777216 mod 256 = n div 16777216"
proof -
  have "n div 16777216 < 256" using assms by linarith
  moreover have "0 \<le> n div 16777216" using assms by linarith
  ultimately show ?thesis by (rule_tac mod_pos_pos_trivial)
qed

lemma le_bytes_value:
  fixes n :: int
  assumes "0 \<le> n" "n < 4294967296"
  shows "uint (word_of_int n :: byte) + 256 * uint (word_of_int (n div 256) :: byte)
         + 65536 * uint (word_of_int (n div 65536) :: byte)
         + 16777216 * uint (word_of_int (n div 16777216) :: byte) = n"
  unfolding uint_byte top_byte_small [OF assms] by (rule base256_digits)

lemma to_uint32_id: "0 \<le> n \<Longrightarrow> n < 4294967296 \<Longrightarrow> to_uint32 n = n"
  by (simp add: to_uint32_def)

lemma and_255: "(k::int) AND 255 = k mod 256"
proof -
  have "k AND mask 8 = k mod 2 ^ 8"
    by (simp only: take_bit_eq_mask [symmetric] take_bit_eq_mod)
  then show ?thesis by (simp add: mask_eq_exp_minus_1)
qed

lemma and_65535: "(k::int) AND 65535 = k mod 65536"
proof -
  have "k AND mask 16 = k mod 2 ^ 16"
    by (simp only: take_bit_eq_mask [symmetric] take_bit_eq_mod)
  then show ?thesis by (simp add: mask_eq_exp_minus_1)
qed

section \<open>Multiplexer frames: writer and parser\<close>

lemma u32le_bytes:
  "u32le n = [word_of_int (to_uint32 n), word_of_int (to_uint32 n div 256),
              word_of_int (to_uint32 n div 65536), word_of_int (to_uint32 n div 16777216)]"
  by (simp add: u32le_def setUint32_def to_uint32_def Let_def numeral_eq_Suc)

lemma createBuffer_layout:
  "createBuffer t cid (Some p) = word_of_int t # u32le cid @ p"
  "createBuffer t cid None = word_of_int t # u32le cid"
  by (simp_all add: createBuffer_def concat_parts_def Let_def numeral_eq_Suc u32le_bytes)

lemma parse_createBuffer:
  assumes "0 \<le> t" "t < 256" "0 \<le> cid" "cid < 4294967296"
  shows "parse (createBuffer t cid (Some p)) = Inr \<lparr>mtype = t, channelId = cid, payload = p\<rparr>"
proof -
  have len: "\<not> length (createBuffer t cid (Some p)) < 5"
    by (simp add: createBuffer_layout u32le_bytes)
  have ty: "uint (createBuffer t cid (Some p) ! 0) = t"
    using assms(1,2) by (simp add: createBuffer_layout uint_byte)
  have ci: "getUint32 (createBuffer t cid (Some p)) 1 True = cid"
    using le_bytes_value [OF assms(3,4)]
    by (simp add: createBuffer_layout getUint32_def u32le_bytes to_uint32_id [OF assms(3,4)])
  have pl: "drop 5 (createBuffer t cid (Some p)) = p"
    by (simp add: createBuffer_layout u32le_bytes)
  show ?thesis unfolding parse_def using len ty ci pl by simp
qed

lemma type_code_byte: "0 \<le> type_code t \<and> type_code t < 256"
  by (cases t) simp_all

text \<open>
  Claim C1. For every frame the writer builds from one of the five message types, a
  channel id below \<open>2^32\<close> and any payload (also the empty one, or none), the parser
  recovers the same type, channel id and payload, and the buffer is the type byte, the
  channel id as four bytes least significant first, then the payload.
\<close>

theorem mux_frame_roundtrip:
  assumes "0 \<le> cid" and "cid < 4294967296"
  shows "parse (createBuffer (type_code t) cid (Some p))
           = Inr \<lparr>mtype = type_code t, channelId = cid, payload = p\<rparr>
       \<and> parse (createBuffer (type_code t) cid None)
           = Inr \<lparr>mtype = type_code t, channelId = cid, payload = []\<rparr>
       \<and> createBuffer (type_code t) cid (Some p)
           = [word_of_int (type_code t), word_of_int cid, word_of_int (cid div 256),
              word_of_int (cid div 65536), word_of_int (cid div 16777216)] @ p"
proof -
  have a: "parse (createBuffer (type_code t) cid (Some p))
             = Inr \<lparr>mtype = type_code t, channelId = cid, payload = p\<rparr>" for p
    using parse_createBuffer [of "type_code t" cid p] type_code_byte [of t] assms by simp
  have b: "createBuffer (type_code t) cid None = createBuffer (type_code t) cid (Some [])"
    by (simp add: createBuffer_layout)
  have c: "createBuffer (type_code t) cid (Some p)
           = [word_of_int (type_code t), word_of_int cid, word_of_int (cid div 256),
              word_of_int (cid div 65536), word_of_int (cid div 16777216)] @ p"
    by (simp add: createBuffer_layout u32le_bytes to_uint32_id [OF assms])
  show ?thesis using a [of p] a [of "[]"] b c by simp
qed

text \<open>
  Witness for C1: a \<^verbatim>\<open>Data\<close> frame for channel 258 with a two-byte payload.
\<close>

theorem mux_frame_roundtrip_witness:
  "(0::int) \<le> 258 \<and> (258::int) < 4294967296
   \<and> parse (createBuffer (type_code Data) 258 (Some [7, 9]))
       = Inr \<lparr>mtype = type_code Data, channelId = 258, payload = [7, 9]\<rparr>"
proof -
  have h1: "(0::int) \<le> 258" and h2: "(258::int) < 4294967296" by simp_all
  show ?thesis using h1 h2 mux_frame_roundtrip [OF h1 h2, of Data "[7, 9]"] by blast
qed

section \<open>Touch messages\<close>

lemma encodeTouchMessage_bytes:
  "encodeTouchMessage fmul action pointerId x y screenW screenH pressure01 buttons =
     [2, word_of_int (action AND 255)]
     @ be_u32 (to_uint32 0) @ be_u32 (to_uint32 pointerId) @ be_u32 (to_uint32 x)
     @ be_u32 (to_uint32 y)
     @ be_u16 ((screenW AND 65535) mod 65536) @ be_u16 ((screenH AND 65535) mod 65536)
     @ be_u16 ((math_round (fmul (clamp (case pressure01 of None \<Rightarrow> 1 | Some v \<Rightarrow> v) 0 1) 65535)
                AND 65535) mod 65536)
     @ be_u32 (to_uint32 buttons) @ [0]"
  by (simp add: encodeTouchMessage_def setUint8_def setUint16_def setUint32_def Let_def
      be_u32_def be_u16_def numeral_eq_Suc to_uint32_def)

lemma pressure_u16_range:
  assumes "0 \<le> v" "v \<le> 65535"
  shows "0 \<le> math_round v" "math_round v < 65536"
proof -
  have "0 \<le> v + 1 / 2" using assms by simp
  then show "0 \<le> math_round v" by (simp add: math_round_def)
  have "v + 1 / 2 < 65536" using assms by simp
  then show "math_round v < 65536" by (simp add: math_round_def floor_less_iff)
qed

lemma encodeTouchMessage_layout:
  assumes "0 \<le> action" "action < 256"
    and "0 \<le> pointerId" "pointerId < 4294967296"
    and "0 \<le> x" "x < 4294967296" and "0 \<le> y" "y < 4294967296"
    and "0 \<le> screenW" "screenW < 65536" and "0 \<le> screenH" "screenH < 65536"
    and "0 \<le> buttons" "buttons < 4294967296"
    and "case pressure01 of None \<Rightarrow> True | Some p \<Rightarrow> 0 \<le> p \<and> p \<le> 1"
    and "0 \<le> fmul (case pressure01 of None \<Rightarrow> 1 | Some p \<Rightarrow> p) 65535"
    and "fmul (case pressure01 of None \<Rightarrow> 1 | Some p \<Rightarrow> p) 65535 \<le> 65535"
  shows "encodeTouchMessage fmul action pointerId x y screenW screenH pressure01 buttons =
         touch_layout action pointerId x y screenW screenH
           (math_round (fmul (case pressure01 of None \<Rightarrow> 1 | Some p \<Rightarrow> p) 65535)) buttons @ [0]"
proof -
  define p where "p = (case pressure01 of None \<Rightarrow> 1 | Some v \<Rightarrow> v)"
  have pr: "0 \<le> p" "p \<le> 1" using assms(15) by (auto simp: p_def split: option.splits)
  have cl: "clamp p 0 1 = p" using pr by (simp add: clamp_def)
  have rg: "0 \<le> fmul p 65535" "fmul p 65535 \<le> 65535"
    using assms(16,17) by (simp_all add: p_def)
  have r: "(math_round (fmul p 65535) AND 65535) mod 65536 = math_round (fmul p 65535)"
    using pressure_u16_range [OF rg] by (simp add: and_65535)
  show ?thesis
    unfolding encodeTouchMessage_bytes touch_layout_def p_def [symmetric] cl r
    using assms(1-14) by (simp add: to_uint32_def and_255 and_65535)
qed

lemma be_u32_value:
  assumes "0 \<le> v" "v < 4294967296"
  shows "getUint32 (be_u32 v) 0 False = v"
  using le_bytes_value [OF assms] by (simp add: be_u32_def getUint32_def)

text \<open>
  Claim C2, as stated, fails on the code: the listed fields take 28 bytes, the buffer has
  29, and the code leaves the last byte zero. The touch DOWN at (100, 200) on a 500 by 500
  viewport does not encode to the 28 bytes the claim lists (the product of the default
  pressure 1 and 65535 is exact).
\<close>

theorem touch_example_counterexample:
  "encodeTouchMessage (*) (motion_code DOWN) 0 100 200 500 500 None 0 \<noteq>
     [0x02, 0x00, 0, 0, 0, 0, 0, 0, 0, 0, 0, 0, 0, 0x64, 0, 0, 0, 0xC8,
      0x01, 0xF4, 0x01, 0xF4, 0xFF, 0xFF, 0, 0, 0, 0]"
  by (simp add: encodeTouchMessage_bytes be_u32_def be_u16_def)

text \<open>
  Claim C2, amended. For every action below 256, pointer id, coordinates and buttons below
  \<open>2^32\<close>, screen sizes below \<open>2^16\<close> and pressure in \<open>[0, 1]\<close> (1 when absent), the encoder
  returns exactly 29 bytes: the 28-byte big-endian layout of the specification followed
  by one zero byte, the pressure field being \<^verbatim>\<open>Math.round\<close> of the double-precision
  product of the pressure and 65535. Of that product only its range is used: it lies
  between 0 and 65535. With the default pressure the product is 65535, and the touch DOWN
  of the example encodes to the listed 28 bytes followed by \<open>00\<close>.
\<close>

theorem touch_message_layout:
  assumes "0 \<le> action" "action < 256"
    and "0 \<le> pointerId" "pointerId < 4294967296"
    and "0 \<le> x" "x < 4294967296" and "0 \<le> y" "y < 4294967296"
    and "0 \<le> screenW" "screenW < 65536" and "0 \<le> screenH" "screenH < 65536"
    and "0 \<le> buttons" "buttons < 4294967296"
    and "case pressure01 of None \<Rightarrow> True | Some p \<Rightarrow> 0 \<le> p \<and> p \<le> 1"
    and "0 \<le> fmul (case pressure01 of None \<Rightarrow> 1 | Some p \<Rightarrow> p) 65535"
    and "fmul (case pressure01 of None \<Rightarrow> 1 | Some p \<Rightarrow> p) 65535 \<le> 65535"
  shows "length (encodeTouchMessage fmul action pointerId x y screenW screenH pressure01 buttons) = 29
       \<and> encodeTouchMessage fmul action pointerId x y screenW screenH pressure01 buttons =
           touch_layout action pointerId x y screenW screenH
             (math_round (fmul (case pressure01 of None \<Rightarrow> 1 | Some p \<Rightarrow> p) 65535)) buttons @ [0]
       \<and> (fmul 1 65535 = 65535 \<longrightarrow>
           encodeTouchMessage fmul (motion_code DOWN) 0 100 200 500 500 None 0 =
             [0x02, 0x00, 0, 0, 0, 0, 0, 0, 0, 0, 0, 0, 0, 0x64, 0, 0, 0, 0xC8,
              0x01, 0xF4, 0x01, 0xF4, 0xFF, 0xFF, 0, 0, 0, 0, 0])"
proof -
  have l: "length (encodeTouchMessage fmul action pointerId x y screenW screenH pressure01 buttons) = 29"
    by (simp add: encodeTouchMessage_bytes be_u32_def be_u16_def)
  have e: "encodeTouchMessage fmul (motion_code DOWN) 0 100 200 500 500 None 0 =
           [0x02, 0x00, 0, 0, 0, 0, 0, 0, 0, 0, 0, 0, 0, 0x64, 0, 0, 0, 0xC8,
            0x01, 0xF4, 0x01, 0xF4, 0xFF, 0xFF, 0, 0, 0, 0, 0]"
    if f: "fmul 1 65535 = 65535"
  proof -
    have r: "math_round (fmul (clamp 1 0 1) 65535) = 65535"
      by (simp add: clamp_def f math_round_def floor_eq_iff)
    show ?thesis
      by (simp add: encodeTouchMessage_bytes r be_u32_def be_u16_def to_uint32_def
          and_255 and_65535)
  qed
  have y: "encodeTouchMessage fmul action pointerId x y screenW screenH pressure01 buttons =
           touch_layout action pointerId x y screenW screenH
             (math_round (fmul (case pressure01 of None \<Rightarrow> 1 | Some p \<Rightarrow> p) 65535)) buttons @ [0]"
    using assms by (rule encodeTouchMessage_layout)
  show ?thesis using l e y by simp
qed

text \<open>
  Witness for C2: a MOVE of pointer 1 at (640, 360) on a 1280 by 720 screen with pressure
  one half and the primary button. The products of one half and of 1 with 65535 are
  doubles, so the double-precision product is the exact one at these inputs.
\<close>

theorem touch_message_layout_witness:
  "length (encodeTouchMessage (*) (motion_code MOVE) 1 640 360 1280 720 (Some (1 / 2)) 1) = 29
   \<and> encodeTouchMessage (*) (motion_code MOVE) 1 640 360 1280 720 (Some (1 / 2)) 1 =
       touch_layout (motion_code MOVE) 1 640 360 1280 720 32768 1 @ [0]
   \<and> encodeTouchMessage (*) (motion_code DOWN) 0 100 200 500 500 None 0 =
       [0x02, 0x00, 0, 0, 0, 0, 0, 0, 0, 0, 0, 0, 0, 0x64, 0, 0, 0, 0xC8,
        0x01, 0xF4, 0x01, 0xF4, 0xFF, 0xFF, 0, 0, 0, 0, 0]"
proof -
  have r: "math_round (65535 / 2) = 32768"
    by (simp add: math_round_def floor_eq_iff)
  have "length (encodeTouchMessage (*) (motion_code MOVE) 1 640 360 1280 720 (Some (1 / 2)) 1) = 29
   \<and> encodeTouchMessage (*) (motion_code MOVE) 1 640 360 1280 720 (Some (1 / 2)) 1 =
       touch_layout (motion_code MOVE) 1 640 360 1280 720
         (math_round ((case Some (1 / 2) of None \<Rightarrow> 1 | Some p \<Rightarrow> p) * 65535)) 1 @ [0]
   \<and> ((1::rat) * 65535 = 65535 \<longrightarrow>
       encodeTouchMessage (*) (motion_code DOWN) 0 100 200 500 500 None 0 =
         [0x02, 0x00, 0, 0, 0, 0, 0, 0, 0, 0, 0, 0, 0, 0x64, 0, 0, 0, 0xC8,
          0x01, 0xF4, 0x01, 0xF4, 0xFF, 0xFF, 0, 0, 0, 0, 0])"
    by (rule touch_message_layout [where fmul = "(*)"]) simp_all
  moreover have "(case Some (1 / 2) of None \<Rightarrow> 1 | Some p \<Rightarrow> p) * 65535 = (65535 / 2 :: rat)"
    by simp
  moreover have "(1::rat) * 65535 = 65535" by simp
  ultimately show ?thesis using r by metis
qed

section \<open>Proxy: upstream close and release\<close>

text \<open>
  Claim C3, as stated, fails on the code: on a clean upstream close
  (\<^verbatim>\<open>e.wasClean\<close>) the handler closes the downstream socket with 1000, not 4010.
\<close>

theorem upstream_clean_close_counterexample:
  "ds_closeCalls (ws (remoteSocket_onclose (new_proxy open_socket None (Some ''A'')) True))
     = [(1000, None)]
   \<and> ds_closeCalls (ws (remoteSocket_onclose (new_proxy open_socket None (Some ''A'')) True))
     \<noteq> [(4010, None)]"
  by (simp add: remoteSocket_onclose_def new_proxy_def open_socket_def ws_close_def)

text \<open>
  Claim C3, amended. While the downstream socket is OPEN, an upstream close closes it
  with 1000 when the close was clean and with 4010 when it was not, and an upstream error
  closes it with 4011 and the error's message; when the downstream socket is not OPEN,
  neither handler does anything.
\<close>

theorem upstream_close_codes:
  "(ds_readyState (ws p) = OPEN \<longrightarrow>
      ds_closeCalls (ws (remoteSocket_onclose p wasClean))
        = ds_closeCalls (ws p) @ [(if wasClean then 1000 else 4010, None)]
    \<and> ds_closeCalls (ws (remoteSocket_onerror p message))
        = ds_closeCalls (ws p) @ [(4011, Some message)])
   \<and> (ds_readyState (ws p) \<noteq> OPEN \<longrightarrow>
      remoteSocket_onclose p wasClean = p \<and> remoteSocket_onerror p message = p)"
  by (simp add: remoteSocket_onclose_def remoteSocket_onerror_def ws_close_def)

text \<open>
  Witness for C3: an unclean upstream close and an upstream error on a session whose
  downstream socket is OPEN.
\<close>

theorem upstream_close_codes_witness:
  "ds_readyState (ws (new_proxy open_socket None None)) = OPEN
   \<and> ds_closeCalls (ws (remoteSocket_onclose (new_proxy open_socket None None) False))
       = [(4010, None)]
   \<and> ds_closeCalls (ws (remoteSocket_onerror (new_proxy open_socket None None) ''ECONNRESET''))
       = [(4011, Some ''ECONNRESET'')]"
  using upstream_close_codes [of "new_proxy open_socket None None" False "''ECONNRESET''"]
  by (simp add: new_proxy_def open_socket_def)

lemma flush_sessionId: "sessionId (flush p) = sessionId p"
  by (simp add: flush_def Let_def split: option.splits)

lemma stopPlayback_sessionId: "sessionId (stopPlayback p b) = sessionId p"
  by (simp add: stopPlayback_def Let_def)

lemma persistRecording_syncMapping: "syncMapping (persistRecording g p) = syncMapping g"
  by (simp add: persistRecording_def split: option.splits)

text \<open>
  Claim C10. Releasing a session that is not yet released and has a session id empties
  the whole sync mapping, whatever sources and followers it held; releasing one without
  a session id leaves the mapping as it was.
\<close>

theorem release_clears_sync_mapping:
  assumes "\<not> released p"
  shows "(truthy_str (sessionId p) \<longrightarrow> syncMapping (fst (release mw_release g p)) = [])
       \<and> (\<not> truthy_str (sessionId p) \<longrightarrow> syncMapping (fst (release mw_release g p)) = syncMapping g)"
  using assms
  by (simp add: release_def Let_def flush_sessionId stopPlayback_sessionId
      persistRecording_syncMapping truthy_str_def sync_clear_def split: option.splits)

text \<open>
  Witness for C10: session \<open>A\<close> is released while the mapping sends \<open>B\<close> to \<open>C\<close>;
  the mapping is empty afterwards.
\<close>

theorem release_clears_sync_mapping_witness:
  "\<not> released (new_proxy open_socket None (Some ''A''))
   \<and> truthy_str (sessionId (new_proxy open_socket None (Some ''A'')))
   \<and> syncMapping (demo_server (new_proxy open_socket None (Some ''A''))) = [(''B'', [''C''])]
   \<and> syncMapping (fst (release (\<lambda>s. s) (demo_server (new_proxy open_socket None (Some ''A'')))
                          (new_proxy open_socket None (Some ''A'')))) = []"
  using release_clears_sync_mapping [of "new_proxy open_socket None (Some ''A'')" "\<lambda>s. s"
      "demo_server (new_proxy open_socket None (Some ''A''))"]
  by (simp add: new_proxy_def truthy_str_def demo_server_def)

section \<open>Recorder\<close>

lemma forwardFromSync_recorder: "recorder (forwardFromSync q d) = recorder q"
  by (simp add: forwardFromSync_def split: option.splits)

lemma mirror_recorder:
  "map_option recorder (proxies (mirror g source d) a) = map_option recorder (proxies g a)"
proof -
  have step: "map_option recorder (proxies (foldl (\<lambda>g device.
                   case sessions g device of
                     None \<Rightarrow> g
                   | Some b \<Rightarrow>
                       (case proxies g b of
                          None \<Rightarrow> g
                        | Some q \<Rightarrow> g\<lparr>proxies := (proxies g)(b \<mapsto> forwardFromSync q d)\<rparr>))
                g tgts) a) = map_option recorder (proxies g a)" for tgts g
  proof (induction tgts arbitrary: g)
    case Nil
    show ?case by simp
  next
    case (Cons t tgts)
    show ?case
      by (simp add: Cons.IH forwardFromSync_recorder split: option.splits)
  qed
  show ?thesis by (simp add: mirror_def step split: option.splits)
qed

lemma onSocketMessage_recorder:
  assumes "proxies g a = Some q"
  shows "map_option recorder (proxies (onSocketMessage toBase64 g a now d) a)
           = Some (if \<not> recordingPaused q
                   then map_option (\<lambda>r. capture toBase64 r now d) (recorder q)
                   else recorder q)"
proof -
  define p1 where "p1 = (if \<not> recordingPaused q
                    then q\<lparr>recorder := map_option (\<lambda>r. capture toBase64 r now d) (recorder q)\<rparr>
                    else q)"
  define p2 where "p2 = (case remoteSocket p1 of
                      Some rs \<Rightarrow> p1\<lparr>remoteSocket := Some (us_send rs d)\<rparr>
                    | None \<Rightarrow> p1\<lparr>storage := storage p1 @ [d]\<rparr>)"
  define g1 where "g1 = g\<lparr>proxies := (proxies g)(a \<mapsto> p2)\<rparr>"
  have r2: "recorder p2 = recorder p1"
    by (simp add: p2_def split: option.splits)
  have r1: "recorder p1 = (if \<not> recordingPaused q
                   then map_option (\<lambda>r. capture toBase64 r now d) (recorder q)
                   else recorder q)"
    by (simp add: p1_def)
  have e: "onSocketMessage toBase64 g a now d =
             (case sessionId p2 of
                None \<Rightarrow> g1
              | Some sid \<Rightarrow> if sid \<noteq> [] then mirror g1 sid d else g1)"
    unfolding onSocketMessage_def assms g1_def p2_def p1_def by (simp add: Let_def)
  have "map_option recorder (proxies (onSocketMessage toBase64 g a now d) a)
          = map_option recorder (proxies g1 a)"
    unfolding e by (cases "sessionId p2") (simp_all add: mirror_recorder)
  also have "\<dots> = Some (recorder p2)" by (simp add: g1_def)
  finally show ?thesis by (simp only: r2 r1)
qed

lemma onSocketMessage_paused:
  assumes "proxies g a = Some q" "recordingPaused q"
  shows "map_option recorder (proxies (onSocketMessage toBase64 g a now d) a) = Some (recorder q)"
  using onSocketMessage_recorder [OF assms(1)] assms(2) by simp

lemma capture_messages:
  "messages (capture toBase64 r now d) =
     messages r @ [\<lparr>at_ms = getElapsed r now, data = fst (encode toBase64 d),
                    binary = snd (encode toBase64 d)\<rparr>]"
  by (simp add: capture_def Let_def split: prod.splits)

lemma pause_resume_elapsed:
  assumes "\<not> truthy_num (pausedAt r)" "p \<noteq> 0"
  shows "getElapsed (recorder_resume (recorder_pause r p) rt) t
           = (p - startedAt r - pausedDuration r) + (t - rt)"
  using assms
  by (simp add: getElapsed_def recorder_resume_def recorder_pause_def Let_def)

lemma updateStatus_keeps:
  "recordingPaused (snd (updateStatus g p now st rid fp off)) = recordingPaused p"
  "recorder (snd (updateStatus g p now st rid fp off)) = recorder p"
  by (simp_all add: updateStatus_def Let_def split: option.splits list.splits)

lemma pausePlayback_mode:
  "proxy_pause g0 q0 tp = Inr (g1, q1, ModeRecord) \<Longrightarrow>
     recordingPaused q1 \<and> recorder q1 = map_option (\<lambda>r. recorder_pause r tp) (recorder q0)"
proof -
  assume a: "proxy_pause g0 q0 tp = Inr (g1, q1, ModeRecord)"
  define q' where "q' = q0\<lparr>recordingPaused := True,
                           recorder := map_option (\<lambda>r. recorder_pause r tp) (recorder q0)\<rparr>"
  have "q1 = snd (updateStatus g0 q' tp St_pause (activeRecordId q') None 0)"
    using a by (auto simp: proxy_pause_def Let_def q'_def split: if_splits prod.splits)
  then show ?thesis by (simp add: updateStatus_keeps q'_def)
qed

text \<open>
  Claim C4. A captured frame is stamped
  \<open>now - startedAt - pausedDuration - (now - pausedAt if paused)\<close>; while the proxy's
  \<^verbatim>\<open>recordingPaused\<close> flag is set (which \<^verbatim>\<open>pause()\<close> sets together with pausing the
  recorder) an arriving frame leaves the recorder untouched; and after a pause at \<open>p\<close>
  and a resume at \<open>rt\<close> of a recorder that was running, a frame at \<open>t\<close> is stamped
  \<open>(p - startedAt - pausedDuration) + (t - rt)\<close>. The clock is \<^verbatim>\<open>Date.now()\<close>,
  milliseconds since 1970, so a pause time is never 0 (the code tests \<^verbatim>\<open>pausedAt\<close>
  for truthiness).
\<close>

theorem recorder_timestamps:
  assumes "proxies g a = Some q" and "recordingPaused q"
    and "\<not> truthy_num (pausedAt r)" and "p \<noteq> 0"
  shows "at_ms (last (messages (capture toBase64 r' now d)))
           = now - startedAt r' - pausedDuration r'
               - (if truthy_num (pausedAt r') then now - the (pausedAt r') else 0)
       \<and> map_option recorder (proxies (onSocketMessage toBase64 g a now d) a) = Some (recorder q)
       \<and> (proxy_pause g0 q0 p = Inr (g1, q1, ModeRecord) \<longrightarrow>
            recordingPaused q1
            \<and> recorder q1 = map_option (\<lambda>r. recorder_pause r p) (recorder q0))
       \<and> at_ms (last (messages (capture toBase64 (recorder_resume (recorder_pause r p) rt) t d)))
           = (p - startedAt r - pausedDuration r) + (t - rt)"
proof -
  have a: "at_ms (last (messages (capture toBase64 r' now d)))
           = now - startedAt r' - pausedDuration r'
               - (if truthy_num (pausedAt r') then now - the (pausedAt r') else 0)"
    by (simp add: capture_messages getElapsed_def truthy_num_def split: option.splits)
  have c: "at_ms (last (messages (capture toBase64 (recorder_resume (recorder_pause r p) rt) t d)))
           = (p - startedAt r - pausedDuration r) + (t - rt)"
    using pause_resume_elapsed [OF assms(3,4)] by (simp add: capture_messages)
  show ?thesis
    using a c onSocketMessage_paused [OF assms(1,2)] pausePlayback_mode by blast
qed

text \<open>
  Witness for C4: the recorder starts at 0, is paused at 200 and resumed at 500; a frame
  at 400 changes nothing, a frame at 600 is stamped 300.
\<close>

theorem recorder_timestamps_witness:
  "proxies (demo_server paused_proxy) 0 = Some paused_proxy
   \<and> recordingPaused paused_proxy
   \<and> \<not> truthy_num (pausedAt demo_recorder)
   \<and> (200::int) \<noteq> 0
   \<and> map_option recorder
        (proxies (onSocketMessage (\<lambda>bs. []) (demo_server paused_proxy) 0 400 (WsString ''x'')) 0)
       = Some (recorder paused_proxy)
   \<and> at_ms (last (messages (capture (\<lambda>bs. [])
                (recorder_resume (recorder_pause demo_recorder 200) 500) 600 (WsString ''x''))))
       = 300"
proof -
  have h1: "proxies (demo_server paused_proxy) 0 = Some paused_proxy"
    by (simp add: demo_server_def)
  have h2: "recordingPaused paused_proxy" by (simp add: paused_proxy_def)
  have h3: "\<not> truthy_num (pausedAt demo_recorder)"
    by (simp add: demo_recorder_def new_recorder_def truthy_num_def)
  have h4: "(200::int) \<noteq> 0" by simp
  have s: "(200 - startedAt demo_recorder - pausedDuration demo_recorder) + (600 - 500) = (300::int)"
    by (simp add: demo_recorder_def new_recorder_def)
  show ?thesis
    using h1 h2 h3 h4 s
      recorder_timestamps [OF h1 h2 h3 h4, of "\<lambda>bs. []" _ 400 "WsString ''x''" _ _ _ _ 500 600]
    by simp
qed

lemma safe_not_space: "id_safe c \<Longrightarrow> \<not> is_space c"
  by (auto simp: id_safe_def is_space_def Let_def)

lemma dropWhile_safe: "\<forall>c\<in>set s. id_safe c \<Longrightarrow> dropWhile is_space s = s"
  by (cases s) (auto simp: safe_not_space)

lemma trim_safe: "\<forall>c\<in>set s. id_safe c \<Longrightarrow> trim s = s"
  by (simp add: trim_def dropWhile_safe)

lemma digit_safe: "d < 10 \<Longrightarrow> id_safe (digit_char d)"
proof -
  assume "d < 10"
  then have "digit_char d \<in> set ''0123456789''"
    unfolding digit_char_def by (intro nth_mem) simp
  then show ?thesis by (auto simp: id_safe_def Let_def)
qed

lemma string_of_nat_safe: "\<forall>c\<in>set (string_of_nat n). id_safe c"
proof (induction n rule: string_of_nat.induct)
  case (1 n)
  show ?case
  proof (cases "10 \<le> n")
    case False
    then show ?thesis by (subst string_of_nat.simps) (simp add: digit_safe)
  next
    case True
    have "n mod 10 < 10" by simp
    then have "id_safe (digit_char (n mod 10))" by (rule digit_safe)
    with True 1 show ?thesis by (subst string_of_nat.simps) simp
  qed
qed

lemma createId_safe: "\<forall>c\<in>set (createId now). id_safe c"
  using string_of_nat_safe
  by (auto simp: createId_def string_of_int_def id_safe_def Let_def)

lemma replace_safe: "\<forall>c\<in>set (map (\<lambda>c. if id_safe c then c else CHR ''_'') s). id_safe c"
  by (auto simp: id_safe_def Let_def)

lemma replace_id: "\<forall>c\<in>set s. id_safe c \<Longrightarrow> map (\<lambda>c. if id_safe c then c else CHR ''_'') s = s"
  by (induction s) simp_all

lemma replace_eq:
  "map (\<lambda>c. if id_safe c then c else CHR ''_'') s = xs \<Longrightarrow> CHR ''_'' \<notin> set xs \<Longrightarrow> s = xs"
  by (induction s arbitrary: xs) (auto split: if_splits)

lemma replace_true:
  "map (\<lambda>c. if id_safe c then c else CHR ''_'') s = ''true'' \<Longrightarrow> s = ''true''"
  by (rule replace_eq) simp_all

lemma replace_one:
  "map (\<lambda>c. if id_safe c then c else CHR ''_'') s = ''1'' \<Longrightarrow> s = ''1''"
  by (rule replace_eq) simp_all

lemma normalizeId_Some:
  "normalizeId now (Some r) =
     (if trim r = [] then None
      else if trim r = ''true'' \<or> trim r = ''1'' then Some (createId now)
      else Some (map (\<lambda>c. if id_safe c then c else CHR ''_'') (trim r)))"
  by (simp add: normalizeId_def Let_def)

lemma createId_props:
  "createId now \<noteq> [] \<and> createId now \<noteq> ''true'' \<and> createId now \<noteq> ''1''"
  by (simp add: createId_def)

lemma normalizeId_fixpoint:
  assumes "normalizeId now raw = Some i"
  shows "normalizeId now' (Some i) = Some i"
proof -
  from assms obtain r where raw: "raw = Some r" by (cases raw) (simp_all add: normalizeId_def)
  define t where "t = trim r"
  have eq: "(if t = [] then None
      else if t = ''true'' \<or> t = ''1'' then Some (createId now)
      else Some (map (\<lambda>c. if id_safe c then c else CHR ''_'') t)) = Some i"
    using assms unfolding raw normalizeId_Some t_def .
  have tne: "t \<noteq> []"
  proof
    assume "t = []"
    with eq show False by simp
  qed
  have props: "(\<forall>c\<in>set i. id_safe c) \<and> i \<noteq> [] \<and> i \<noteq> ''true'' \<and> i \<noteq> ''1''"
  proof (cases "t = ''true'' \<or> t = ''1''")
    case True
    with eq tne have "i = createId now" by simp
    then show ?thesis using createId_safe [of now] createId_props [of now] by simp
  next
    case False
    with eq tne have i: "i = map (\<lambda>c. if id_safe c then c else CHR ''_'') t" by simp
    have "i \<noteq> ''true''"
    proof
      assume "i = ''true''"
      then have "map (\<lambda>c. if id_safe c then c else CHR ''_'') t = ''true''"
        unfolding i .
      then have "t = ''true''" by (rule replace_true)
      with False show False by simp
    qed
    moreover have "i \<noteq> ''1''"
    proof
      assume "i = ''1''"
      then have "map (\<lambda>c. if id_safe c then c else CHR ''_'') t = ''1''"
        unfolding i .
      then have "t = ''1''" by (rule replace_one)
      with False show False by simp
    qed
    moreover have "i \<noteq> []" using tne i by simp
    moreover have "\<forall>c\<in>set i. id_safe c" unfolding i by (rule replace_safe)
    ultimately show ?thesis by simp
  qed
  then have "trim i = i" by (simp add: trim_safe)
  with props show ?thesis unfolding normalizeId_Some by (simp add: replace_id)
qed

lemma sort_key_sorted_id: "sorted (map f xs) \<Longrightarrow> sort_key f xs = xs"
  by (induction xs) (auto simp: insort_is_Cons)

lemma load_coercion_id:
  "map (\<lambda>item. \<lparr>at_ms = (if at_ms item \<noteq> 0 then at_ms item else 0),
                  data = data item, binary = binary item\<rparr>) ms = ms"
  by (induction ms) simp_all

lemma normalizeId_nonempty: "normalizeId now (Some i) = Some i \<Longrightarrow> i \<noteq> []"
  by (auto simp: normalizeId_def Let_def trim_def split: if_splits)

lemma load_persist:
  assumes "normalizeId now (Some (rec_id r)) = Some (rec_id r)"
  shows "load (fst (persist fs r)) now (rec_id r) =
           Inr \<lparr>file_id = rec_id r, file_remote = rec_remote r, file_createdAt = startedAt r,
                file_name = None, file_meta = rec_meta r,
                file_messages = sort_key at_ms (messages r)\<rparr>"
  using normalizeId_nonempty [OF assms]
  by (simp add: load_def persist_def assms Let_def load_coercion_id)

lemma decode_encode_binary:
  assumes "fromBase64 (toBase64 bs) = bs"
  shows "decodeMessage fromBase64
           \<lparr>at_ms = t, data = fst (encode toBase64 (WsBuffer bs)),
            binary = snd (encode toBase64 (WsBuffer bs))\<rparr> = WsBuffer bs"
  using assms by (simp add: decodeMessage_def encode_def)

lemma createId_fixpoint: "normalizeId now' (Some (createId now)) = Some (createId now)"
proof -
  have "normalizeId now (Some ''true'') = Some (createId now)"
    by (simp add: normalizeId_Some trim_def is_space_def)
  then show ?thesis by (rule normalizeId_fixpoint)
qed

text \<open>
  Claim C5. For a recording whose messages have non-decreasing \<^verbatim>\<open>at\<close> and whose id is
  a normalised id (as every id the proxy gives a recorder is: \<open>normalizeId_fixpoint\<close>,
  \<open>createId_fixpoint\<close>), loading the file that \<^verbatim>\<open>persist\<close> wrote returns exactly
  the recorder's messages, so also the same payloads after \<^verbatim>\<open>decodeMessage\<close>, whatever
  the base64 codec; and the messages of any loaded file are sorted by \<^verbatim>\<open>at\<close>.
\<close>

theorem recording_persist_load:
  assumes "sorted (map at_ms (messages r))"
    and "normalizeId now (Some (rec_id r)) = Some (rec_id r)"
  shows "load (fst (persist fs r)) now (rec_id r) =
           Inr \<lparr>file_id = rec_id r, file_remote = rec_remote r, file_createdAt = startedAt r,
                file_name = None, file_meta = rec_meta r, file_messages = messages r\<rparr>
       \<and> map (decodeMessage fromBase64) (messages r)
           = (case load (fst (persist fs r)) now (rec_id r) of
                Inl e \<Rightarrow> [] | Inr f \<Rightarrow> map (decodeMessage fromBase64) (file_messages f))
       \<and> (case load (fst (persist fs r')) now (rec_id r') of
            Inl e \<Rightarrow> True | Inr f \<Rightarrow> sorted (map at_ms (file_messages f)))"
proof -
  have a: "load (fst (persist fs r)) now (rec_id r) =
           Inr \<lparr>file_id = rec_id r, file_remote = rec_remote r, file_createdAt = startedAt r,
                file_name = None, file_meta = rec_meta r, file_messages = messages r\<rparr>"
    using load_persist [OF assms(2)] sort_key_sorted_id [OF assms(1)] by simp
  have c: "(case load fs' now i of
            Inl e \<Rightarrow> True | Inr f \<Rightarrow> sorted (map at_ms (file_messages f)))" for fs' i
    by (simp add: load_def Let_def split: option.splits)
  show ?thesis using a c by simp
qed

text \<open>
  Witness for C5: a recording \<open>demo\<close> with a text message at 0 and a binary one at 250.
\<close>

theorem recording_persist_load_witness:
  "sorted (map at_ms (messages demo_recording))
   \<and> normalizeId 5 (Some (rec_id demo_recording)) = Some (rec_id demo_recording)
   \<and> load (fst (persist Map.empty demo_recording)) 5 (rec_id demo_recording) =
       Inr \<lparr>file_id = ''demo'', file_remote = ''ws://127.0.0.1:8886'', file_createdAt = 1000,
            file_name = None, file_meta = None,
            file_messages = [\<lparr>at_ms = 0, data = ''a'', binary = False\<rparr>,
                             \<lparr>at_ms = 250, data = ''AQI='', binary = True\<rparr>]\<rparr>"
proof -
  have h1: "sorted (map at_ms (messages demo_recording))"
    by (simp add: demo_recording_def new_recorder_def)
  have h2: "normalizeId 5 (Some (rec_id demo_recording)) = Some (rec_id demo_recording)"
    by (simp add: demo_recording_def new_recorder_def normalizeId_Some trim_def is_space_def
        id_safe_def Let_def)
  show ?thesis
    using h1 h2 recording_persist_load [OF h1 h2, of Map.empty]
    by (simp add: demo_recording_def new_recorder_def)
qed

section \<open>Sync mapping\<close>

lemma js_set_foldl:
  "set (foldl (\<lambda>acc x. if x \<in> set acc then acc else acc @ [x]) acc xs) = set acc \<union> set xs"
  "distinct acc \<Longrightarrow> distinct (foldl (\<lambda>acc x. if x \<in> set acc then acc else acc @ [x]) acc xs)"
  by (induction xs arbitrary: acc) auto

lemma set_js_set: "set (js_set xs) = set xs"
  by (simp add: js_set_def js_set_foldl)

lemma distinct_js_set: "distinct (js_set xs)"
  by (simp add: js_set_def js_set_foldl)

lemma map_set_fresh: "k \<notin> fst ` set m \<Longrightarrow> map_set m k v = m @ [(k, v)]"
  by (simp add: map_set_def)

lemma foldl_map_set:
  assumes "distinct ts" "set ts \<inter> fst ` set m = {}"
  shows "foldl (\<lambda>m t. map_set m t (f t)) m ts = m @ map (\<lambda>t. (t, f t)) ts"
  using assms
proof (induction ts arbitrary: m)
  case Nil
  show ?case by simp
next
  case (Cons t ts)
  have fresh: "t \<notin> fst ` set m" using Cons.prems(2) by auto
  have "set ts \<inter> fst ` set (m @ [(t, f t)]) = {}"
    using Cons.prems by auto
  with Cons.IH [of "m @ [(t, f t)]"] Cons.prems(1) show ?case
    by (simp add: map_set_fresh [OF fresh])
qed

lemma setMapping_eq:
  "fst (setMapping m target devs) =
     map (\<lambda>t. (t, removeAll t (js_set (filter (\<lambda>s. s \<noteq> []) (map trimmed devs)))))
         (js_set (filter (\<lambda>s. s \<noteq> []) (map trimmed (target_list target))))"
  using foldl_map_set [of "js_set (filter (\<lambda>s. s \<noteq> []) (map trimmed (target_list target)))" "[]"
      "\<lambda>t. removeAll t (js_set (filter (\<lambda>s. s \<noteq> []) (map trimmed devs)))"]
  by (simp add: setMapping_def Let_def target_list_def distinct_js_set)

lemma set_cleaned_list: "set (js_set (filter (\<lambda>s. s \<noteq> []) (map trimmed vs))) = cleaned vs"
  by (auto simp: set_js_set cleaned_def)

text \<open>
  Claim C8. After \<^verbatim>\<open>setMapping(target, devices)\<close> the keys of the mapping are the
  trimmed non-empty targets, each once; every such target maps to the trimmed non-empty
  devices without duplicates and without the target itself; no source is among its own
  followers; and the result does not depend on the previous mapping.
\<close>

theorem setMapping_followers:
  "fst ` set (fst (setMapping m target devs)) = cleaned (target_list target)
   \<and> distinct (map fst (fst (setMapping m target devs)))
   \<and> (\<forall>t \<in> cleaned (target_list target).
         \<exists>fs. map_of (fst (setMapping m target devs)) t = Some fs
              \<and> set fs = cleaned devs - {t} \<and> distinct fs)
   \<and> (\<forall>s fs. map_of (fst (setMapping m target devs)) s = Some fs \<longrightarrow> s \<notin> set fs)
   \<and> setMapping m target devs = setMapping m' target devs"
proof -
  define T where "T = js_set (filter (\<lambda>s. s \<noteq> []) (map trimmed (target_list target)))"
  define D where "D = js_set (filter (\<lambda>s. s \<noteq> []) (map trimmed devs))"
  have eq: "fst (setMapping m target devs) = map (\<lambda>t. (t, removeAll t D)) T"
    by (simp add: setMapping_eq T_def D_def)
  have sT: "set T = cleaned (target_list target)" by (simp add: T_def set_cleaned_list)
  have sD: "set D = cleaned devs" by (simp add: D_def set_cleaned_list)
  have dT: "distinct T" by (simp add: T_def distinct_js_set)
  have dD: "distinct D" by (simp add: D_def distinct_js_set)
  have mo: "map_of (map (\<lambda>t. (t, removeAll t D)) T) t = (if t \<in> set T then Some (removeAll t D) else None)" for t
    by (induction T) auto
  have 1: "fst ` set (fst (setMapping m target devs)) = cleaned (target_list target)"
    unfolding eq using sT by force
  have 2: "distinct (map fst (fst (setMapping m target devs)))"
    unfolding eq using dT by (simp add: comp_def)
  have 3: "\<forall>t \<in> cleaned (target_list target).
         \<exists>fs. map_of (fst (setMapping m target devs)) t = Some fs
              \<and> set fs = cleaned devs - {t} \<and> distinct fs"
    unfolding eq mo using sT sD dD by (auto simp: distinct_removeAll)
  have 4: "\<forall>s fs. map_of (fst (setMapping m target devs)) s = Some fs \<longrightarrow> s \<notin> set fs"
    unfolding eq mo by auto
  have 5: "setMapping m target devs = setMapping m' target devs"
    by (simp add: setMapping_def)
  show ?thesis using 1 2 3 4 5 by blast
qed

text \<open>
  Witness for C8: target \<open>" A "\<close> with devices \<open>A\<close>, \<open>"B "\<close>, \<open>B\<close>, a non-string and a
  blank string yields the mapping \<open>A \<mapsto> {B}\<close>, replacing the previous one.
\<close>

theorem setMapping_followers_witness:
  "''A'' \<in> cleaned (target_list (TargetOne (JsString '' A '')))
   \<and> fst (setMapping [(''X'', [''A''])] (TargetOne (JsString '' A ''))
            [JsString ''A'', JsString ''B '', JsString ''B'', JsOther, JsString ''  ''])
       = [(''A'', [''B''])]
   \<and> (\<exists>fs. map_of (fst (setMapping [(''X'', [''A''])] (TargetOne (JsString '' A ''))
            [JsString ''A'', JsString ''B '', JsString ''B'', JsOther, JsString ''  ''])) ''A'' = Some fs
         \<and> ''A'' \<notin> set fs)"
proof -
  have h: "''A'' \<in> cleaned (target_list (TargetOne (JsString '' A '')))"
    by (simp add: cleaned_def target_list_def trimmed_def trim_def is_space_def)
  have e: "fst (setMapping [(''X'', [''A''])] (TargetOne (JsString '' A ''))
            [JsString ''A'', JsString ''B '', JsString ''B'', JsOther, JsString ''  ''])
       = [(''A'', [''B''])]"
    by (simp add: setMapping_def js_set_def trimmed_def trim_def is_space_def map_set_def Let_def)
  from setMapping_followers [of "[(''X'', [''A''])]" "TargetOne (JsString '' A '')"
            "[JsString ''A'', JsString ''B '', JsString ''B'', JsOther, JsString ''  '']"]
  have "\<forall>t \<in> cleaned (target_list (TargetOne (JsString '' A ''))).
         \<exists>fs. map_of (fst (setMapping [(''X'', [''A''])] (TargetOne (JsString '' A ''))
            [JsString ''A'', JsString ''B '', JsString ''B'', JsOther, JsString ''  ''])) t = Some fs
              \<and> set fs = cleaned [JsString ''A'', JsString ''B '', JsString ''B'', JsOther, JsString ''  ''] - {t}
              \<and> distinct fs"
    by blast
  with h have "\<exists>fs. map_of (fst (setMapping [(''X'', [''A''])] (TargetOne (JsString '' A ''))
            [JsString ''A'', JsString ''B '', JsString ''B'', JsOther, JsString ''  ''])) ''A'' = Some fs
         \<and> ''A'' \<notin> set fs"
    by blast
  with h e show ?thesis by blast
qed

section \<open>Multiplexer channels: id allocation and sending\<close>

lemma getNextId_unfold:
  "getNextId_loop chs n h =
     (if n + 1 \<in> chs
      then (if n + 1 \<ge> 4294967295
            then (if h then (n + 1, Inl NoAvailableChannelId) else getNextId_loop chs 0 True)
            else getNextId_loop chs (n + 1) h)
      else (n + 1, Inr (n + 1)))"
  by (simp add: getNextId_loop.simps [of chs n h] Let_def)

lemma getNextId_fresh: "snd (getNextId_loop chs n h) = Inr i \<Longrightarrow> i \<notin> chs"
proof (induction chs n h rule: getNextId_loop.induct)
  case (1 chs nextId hitTop)
  show ?case
  proof (cases "nextId + 1 \<in> chs")
    case False
    with "1.prems" show ?thesis by (simp add: getNextId_unfold [of chs nextId])
  next
    case True
    note occ = this
    show ?thesis
    proof (cases "nextId + 1 \<ge> 4294967295")
      case False
      with occ "1.prems" have "snd (getNextId_loop chs (nextId + 1) hitTop) = Inr i"
        by (simp add: getNextId_unfold [of chs nextId])
      with "1.IH"(2) [OF refl occ] False show ?thesis by simp
    next
      case True
      note top = this
      show ?thesis
      proof (cases hitTop)
        case True
        with occ top "1.prems" show ?thesis by (simp add: getNextId_unfold [of chs nextId])
      next
        case False
        with occ top "1.prems" have "snd (getNextId_loop chs 0 True) = Inr i"
          by (simp add: getNextId_unfold [of chs nextId])
        with "1.IH"(1) [OF refl occ top] False show ?thesis by simp
      qed
    qed
  qed
qed

lemma getNextId_exhausted:
  "{1..4294967295} \<subseteq> chs \<Longrightarrow> 0 \<le> n \<Longrightarrow> n < 4294967295
     \<Longrightarrow> snd (getNextId_loop chs n h) = Inl NoAvailableChannelId"
proof (induction chs n h rule: getNextId_loop.induct)
  case (1 chs nextId hitTop)
  have occ: "nextId + 1 \<in> chs" using "1.prems" by auto
  show ?case
  proof (cases "nextId + 1 \<ge> 4294967295")
    case False
    then have "snd (getNextId_loop chs (nextId + 1) hitTop) = Inl NoAvailableChannelId"
      using "1.IH"(2) [OF refl occ] "1.prems" by simp
    with occ False show ?thesis by (simp add: getNextId_unfold [of chs nextId])
  next
    case True
    note top = this
    show ?thesis
    proof (cases hitTop)
      case True
      with occ top show ?thesis by (simp add: getNextId_unfold [of chs nextId])
    next
      case False
      then have "snd (getNextId_loop chs 0 True) = Inl NoAvailableChannelId"
        using "1.IH"(1) [OF refl occ top] "1.prems" by simp
      with occ top False show ?thesis by (simp add: getNextId_unfold [of chs nextId])
    qed
  qed
qed

lemma onCreateChannel_nextId:
  "ch_nextId (channel_state c) < cid \<Longrightarrow> ch_nextId (channel_state (fst (onCreateChannel c cid))) = cid"
  by (cases c) (simp_all add: onCreateChannel_def channel_state_def with_state_def Let_def)

lemma getNextId_past_top:
  "getNextId_loop {4294967295} 4294967295 False = (4294967296, Inr 4294967296)"
  by (simp add: getNextId_unfold [of _ 4294967295])

text \<open>
  Claim C6 holds of the code except at the top of the id range, where the code misses the
  wrap-around it attempts: the test \<^verbatim>\<open>nextId >= 0xffffffff\<close> sits inside the loop body,
  so it runs only for an occupied candidate. When the counter already stands at
  \<open>2^32 - 1\<close> (here because the peer announced that child id), the next allocation
  increments it to \<open>2^32\<close>, finds that key free and returns it: no wrap, and the
  \<^verbatim>\<open>CreateChannel\<close> frame written for the new child carries channel id 0, since
  \<^verbatim>\<open>u32le\<close> keeps the id modulo \<open>2^32\<close>. The other parts of the claim are proved above:
  \<open>getNextId_fresh\<close> (an allocated id is not a live key), \<open>getNextId_exhausted\<close>
  (all of \<open>1 .. 2^32 - 1\<close> occupied gives the error) and \<open>onCreateChannel_nextId\<close>
  (a larger announced id becomes the counter, so the next candidate lies past it).
\<close>

theorem createChannel_past_top:
  "channel_state top_announced
     = \<lparr>ch_readyState = OPEN, ch_channels = {4294967295}, ch_nextId = 4294967295\<rparr>
   \<and> createChannel top_announced [] =
       (Root \<lparr>ch_readyState = OPEN, ch_channels = {4294967296, 4294967295}, ch_nextId = 4294967296\<rparr>
             [] \<lparr>sock_readyState = OPEN, sock_sent = [PBin [4, 0, 0, 0, 0]]\<rparr>,
        Inr (Child 4294967296 \<lparr>ch_readyState = CONNECTING, ch_channels = {}, ch_nextId = 0\<rparr>
              (Root \<lparr>ch_readyState = OPEN, ch_channels = {4294967296, 4294967295},
                     ch_nextId = 4294967296\<rparr>
                    [] \<lparr>sock_readyState = OPEN, sock_sent = [PBin [4, 0, 0, 0, 0]]\<rparr>)))"
proof -
  have t: "top_announced = Root \<lparr>ch_readyState = OPEN, ch_channels = {4294967295}, ch_nextId = 4294967295\<rparr>
             [] \<lparr>sock_readyState = OPEN, sock_sent = []\<rparr>"
    by (simp add: top_announced_def fresh_root_def onCreateChannel_def channel_state_def
        with_state_def Let_def)
  have n: "getNextId_loop {4294967295} 4294967295 False = (4294967296, Inr 4294967296)"
    by (simp add: getNextId_unfold [of _ 4294967295])
  have b: "createBuffer 4 4294967296 (Some []) = [4, 0, 0, 0, 0]"
    by (simp add: createBuffer_layout u32le_bytes to_uint32_def)
  show ?thesis
    by (simp add: t createChannel_def getNextId_def channel_state_def with_state_def n b
        raw_send_def sock_send_def Let_def)
qed

lemma sendData_closed:
  "root_readyState c = CLOSING \<or> root_readyState c = CLOSED
     \<Longrightarrow> sendData c u8 = (c, Some SocketClosingOrClosed)"
proof (induction c arbitrary: u8)
  case (Root st q sock)
  then show ?case by (auto simp: root_readyState_def raw_send_def)
next
  case (Child i st parent)
  then have "root_readyState parent = CLOSING \<or> root_readyState parent = CLOSED"
    by (simp add: root_readyState_def)
  from Child.IH [OF this] show ?case by simp
qed

lemma sendData_connecting:
  "root_readyState c = CONNECTING
     \<Longrightarrow> snd (sendData c u8) = None
         \<and> length (root_storage (fst (sendData c u8))) = Suc (length (root_storage c))
         \<and> root_readyState (fst (sendData c u8)) = CONNECTING"
proof (induction c arbitrary: u8)
  case (Root st q sock)
  then show ?case by (simp add: root_readyState_def root_storage_def raw_send_def)
next
  case (Child i st parent)
  then have p: "root_readyState parent = CONNECTING" by (simp add: root_readyState_def)
  from Child.IH [OF p, of "createBuffer (type_code Data) i (Some u8)"] show ?case
    by (simp add: root_readyState_def root_storage_def case_prod_beta)
qed

lemma send_closed:
  assumes "root_readyState c = CLOSING \<or> root_readyState c = CLOSED"
  shows "send c d = (c, Some SocketClosingOrClosed)"
proof (cases c)
  case (Root st q sock)
  with assms show ?thesis by (auto simp: root_readyState_def raw_send_def)
next
  case (Child i st parent)
  with assms have "root_readyState parent = CLOSING \<or> root_readyState parent = CLOSED"
    by (simp add: root_readyState_def)
  then show ?thesis using Child by (cases d) (simp_all add: sendData_closed)
qed

lemma send_connecting:
  assumes "root_readyState c = CONNECTING"
  shows "snd (send c d) = None
       \<and> length (root_storage (fst (send c d))) = Suc (length (root_storage c))"
proof (cases c)
  case (Root st q sock)
  with assms show ?thesis by (simp add: root_readyState_def root_storage_def raw_send_def)
next
  case (Child i st parent)
  with assms have p: "root_readyState parent = CONNECTING" by (simp add: root_readyState_def)
  show ?thesis
  proof (cases d)
    case (PStr s)
    with Child sendData_connecting [OF p, of "createBuffer (type_code RawStringData) i (Some (utf8_encode s))"]
    show ?thesis by (simp add: root_storage_def case_prod_beta)
  next
    case (PBin u8)
    with Child sendData_connecting [OF p, of "createBuffer (type_code RawBinaryData) i (Some u8)"]
    show ?thesis by (simp add: root_storage_def case_prod_beta)
  qed
qed

text \<open>
  Claim C7, as stated, fails on the code for channels other than the root: \<^verbatim>\<open>send\<close> on
  a child never reads the child's own state. With the root OPEN, a send on a CLOSED child
  does not fail, and a send on a CONNECTING child is not queued; both frames go out on
  the socket at once.
\<close>

theorem send_closed_child_counterexample:
  "send (Child 1 \<lparr>ch_readyState = CLOSED, ch_channels = {}, ch_nextId = 0\<rparr> (fresh_root OPEN)) (PBin [7])
     = (Child 1 \<lparr>ch_readyState = CLOSED, ch_channels = {}, ch_nextId = 0\<rparr>
          (Root \<lparr>ch_readyState = OPEN, ch_channels = {}, ch_nextId = 0\<rparr> []
                \<lparr>sock_readyState = OPEN, sock_sent = [PBin [16, 1, 0, 0, 0, 7]]\<rparr>), None)
   \<and> send (Child 1 \<lparr>ch_readyState = CONNECTING, ch_channels = {}, ch_nextId = 0\<rparr> (fresh_root OPEN)) (PBin [7])
     = (Child 1 \<lparr>ch_readyState = CONNECTING, ch_channels = {}, ch_nextId = 0\<rparr>
          (Root \<lparr>ch_readyState = OPEN, ch_channels = {}, ch_nextId = 0\<rparr> []
                \<lparr>sock_readyState = OPEN, sock_sent = [PBin [16, 1, 0, 0, 0, 7]]\<rparr>), None)"
proof -
  have b: "createBuffer 16 1 (Some [7]) = [16, 1, 0, 0, 0, 7]"
    by (simp add: createBuffer_layout u32le_bytes to_uint32_def)
  show ?thesis by (simp add: fresh_root_def b raw_send_def sock_send_def)
qed

text \<open>
  Claim C7, amended. On the root channel a send while CONNECTING is appended to the
  queue. A send on a child is wrapped and handed to its parent whatever the child's own
  state is; for every channel, root or not, the send fails with the closing-or-closed
  error and changes nothing when the root is CLOSING or CLOSED, and is queued on the root
  without error when the root is CONNECTING. What becomes of the queue when the root
  opens is left out here.
\<close>

theorem send_by_root_state:
  "(ch_readyState st = CONNECTING \<longrightarrow>
      send (Root st q sock) d = (Root st (q @ [d]) sock, None))
   \<and> (root_readyState c = CLOSING \<or> root_readyState c = CLOSED \<longrightarrow>
        send c d = (c, Some SocketClosingOrClosed))
   \<and> (root_readyState c = CONNECTING \<longrightarrow>
        snd (send c d) = None
        \<and> length (root_storage (fst (send c d))) = Suc (length (root_storage c)))
   \<and> snd (send (Child i st1 parent) d) = snd (send (Child i st2 parent) d)"
proof -
  have a: "ch_readyState st = CONNECTING \<longrightarrow>
      send (Root st q sock) d = (Root st (q @ [d]) sock, None)"
    by (simp add: raw_send_def)
  have e: "snd (send (Child i st1 parent) d) = snd (send (Child i st2 parent) d)"
    by (cases d) (simp_all add: case_prod_beta)
  show ?thesis
    using a e send_closed [of c d] send_connecting [of c d]
    by blast
qed

text \<open>
  Witness for C7: two sends on a connecting root are queued in order; a send on an OPEN
  child of a CLOSED root fails.
\<close>

theorem send_by_root_state_witness:
  "fst (send (fst (send (fresh_root CONNECTING) (PStr ''a''))) (PBin [1, 2])) =
     Root \<lparr>ch_readyState = CONNECTING, ch_channels = {}, ch_nextId = 0\<rparr>
          [PStr ''a'', PBin [1, 2]] \<lparr>sock_readyState = CONNECTING, sock_sent = []\<rparr>
   \<and> root_readyState (Child 3 \<lparr>ch_readyState = OPEN, ch_channels = {}, ch_nextId = 0\<rparr>
                           (fresh_root CLOSED)) = CLOSED
   \<and> send (Child 3 \<lparr>ch_readyState = OPEN, ch_channels = {}, ch_nextId = 0\<rparr> (fresh_root CLOSED))
          (PStr ''x'')
       = (Child 3 \<lparr>ch_readyState = OPEN, ch_channels = {}, ch_nextId = 0\<rparr> (fresh_root CLOSED),
          Some SocketClosingOrClosed)"
proof -
  have s: "fst (send (fst (send (fresh_root CONNECTING) (PStr ''a''))) (PBin [1, 2])) =
     Root \<lparr>ch_readyState = CONNECTING, ch_channels = {}, ch_nextId = 0\<rparr>
          [PStr ''a'', PBin [1, 2]] \<lparr>sock_readyState = CONNECTING, sock_sent = []\<rparr>"
    by (simp add: fresh_root_def raw_send_def)
  have r: "root_readyState (Child 3 \<lparr>ch_readyState = OPEN, ch_channels = {}, ch_nextId = 0\<rparr>
                           (fresh_root CLOSED)) = CLOSED"
    by (simp add: root_readyState_def fresh_root_def)
  from send_by_root_state
    [where st = "\<lparr>ch_readyState = CONNECTING, ch_channels = {}, ch_nextId = 0\<rparr>"
       and q = "[PStr ''a'']" and sock = "\<lparr>sock_readyState = CONNECTING, sock_sent = []\<rparr>"
       and d = "PStr ''x''"
       and c = "Child 3 \<lparr>ch_readyState = OPEN, ch_channels = {}, ch_nextId = 0\<rparr> (fresh_root CLOSED)"]
  show ?thesis using s r by simp
qed

section \<open>Wi-Fi switch\<close>

lemma connect_loop_unfold:
  "connect_loop env target i conn events elapsed lastError =
     (if i < 3 \<and> \<not> conn
      then (if attempt_accepted env (Suc i)
            then (events @ [Exec [''connect'', target]], elapsed + exec_duration (env (Suc i)),
                  True, Some (attempt_output env (Suc i)))
            else connect_loop env target (Suc i) conn
                   (events @ [Exec [''connect'', target], Delay 400])
                   (elapsed + exec_duration (env (Suc i)) + 400)
                   (Some (attempt_output env (Suc i))))
      else (events, elapsed, conn, lastError))"
  by (subst connect_loop.simps)
     (simp add: attempt_accepted_def attempt_output_def Let_def split: sum.splits)

lemma connectOverWifi_cases:
  assumes "exec_ok (env 0)"
  shows "(attempt_accepted env 1 \<longrightarrow>
            connectOverWifi ops env uuid targetPort target =
              ([tcpip_event uuid (num_print ops targetPort), Delay 400, connect_event target],
               exec_duration (env 0) + 400 + exec_duration (env 1), Inr ()))
       \<and> (\<not> attempt_accepted env 1 \<and> attempt_accepted env 2 \<longrightarrow>
            connectOverWifi ops env uuid targetPort target =
              ([tcpip_event uuid (num_print ops targetPort), Delay 400, connect_event target, Delay 400,
                connect_event target],
               exec_duration (env 0) + 400 + exec_duration (env 1) + 400 + exec_duration (env 2),
               Inr ()))
       \<and> (\<not> attempt_accepted env 1 \<and> \<not> attempt_accepted env 2 \<and> attempt_accepted env 3 \<longrightarrow>
            connectOverWifi ops env uuid targetPort target =
              ([tcpip_event uuid (num_print ops targetPort), Delay 400, connect_event target, Delay 400,
                connect_event target, Delay 400, connect_event target],
               exec_duration (env 0) + 400 + exec_duration (env 1) + 400 + exec_duration (env 2)
                 + 400 + exec_duration (env 3),
               Inr ()))
       \<and> (\<not> attempt_accepted env 1 \<and> \<not> attempt_accepted env 2 \<and> \<not> attempt_accepted env 3 \<longrightarrow>
            connectOverWifi ops env uuid targetPort target =
              ([tcpip_event uuid (num_print ops targetPort), Delay 400, connect_event target, Delay 400,
                connect_event target, Delay 400, connect_event target, Delay 400],
               exec_duration (env 0) + 400 + exec_duration (env 1) + 400 + exec_duration (env 2)
                 + 400 + exec_duration (env 3) + 400,
               Inl (if attempt_output env 3 \<noteq> [] then attempt_output env 3
                    else ''Failed to connect over WiFi'')))"
proof -
  have c: "connectOverWifi ops env uuid targetPort target =
             (case connect_loop env target 0 False [tcpip_event uuid (num_print ops targetPort), Delay 400]
                     (exec_duration (env 0) + 400) None of
                (events, elapsed, conn, lastError) \<Rightarrow>
                  (events, elapsed,
                   if \<not> conn
                   then Inl (case lastError of
                               None \<Rightarrow> ''Failed to connect over WiFi''
                             | Some e \<Rightarrow> if e \<noteq> [] then e else ''Failed to connect over WiFi'')
                   else Inr ()))"
    using assms
    by (simp add: connectOverWifi_def runAdbCommand_def Let_def tcpip_event_def)
  have u0: "connect_loop env target 0 False ev el le =
     (if attempt_accepted env 1
      then (ev @ [connect_event target], el + exec_duration (env 1), True, Some (attempt_output env 1))
      else connect_loop env target 1 False (ev @ [connect_event target, Delay 400])
             (el + exec_duration (env 1) + 400) (Some (attempt_output env 1)))" for ev el le
    by (subst connect_loop_unfold) (simp add: connect_event_def)
  have u1: "connect_loop env target 1 False ev el le =
     (if attempt_accepted env 2
      then (ev @ [connect_event target], el + exec_duration (env 2), True, Some (attempt_output env 2))
      else connect_loop env target 2 False (ev @ [connect_event target, Delay 400])
             (el + exec_duration (env 2) + 400) (Some (attempt_output env 2)))" for ev el le
    using connect_loop_unfold [of env target 1 False ev el le]
    by (simp add: connect_event_def numeral_2_eq_2)
  have u2: "connect_loop env target 2 False ev el le =
     (if attempt_accepted env 3
      then (ev @ [connect_event target], el + exec_duration (env 3), True, Some (attempt_output env 3))
      else (ev @ [connect_event target, Delay 400],
             el + exec_duration (env 3) + 400, False, Some (attempt_output env 3)))" for ev el le
    using connect_loop_unfold [of env target 2 False ev el le]
          connect_loop_unfold [of env target 3 False]
    by (simp add: connect_event_def numeral_3_eq_3 numeral_2_eq_2)
  show ?thesis unfolding c u0 u1 u2 by simp
qed

lemma s5555: "string_of_int 5555 = ''5555''"
  by (simp add: string_of_int_def string_of_nat.simps digit_char_def)

lemma acc1: "\<not> attempt_accepted demo_env 1"
  by (simp add: attempt_accepted_def demo_env_def runAdbCommand_def trim_def is_space_def
      connect_accepted_def toLowerCase_def Let_def)

lemma acc2: "attempt_accepted demo_env 2"
  by (simp add: attempt_accepted_def demo_env_def runAdbCommand_def trim_def is_space_def
      connect_accepted_def toLowerCase_def Let_def)

lemma ok0: "exec_ok (demo_env 0)"
  by (simp add: demo_env_def)

text \<open>
  Claim C9, as stated, fails on the code: the wait between two \<^verbatim>\<open>adb connect\<close> attempts
  is 400 ms, not 200 ms. Here the first attempt is not accepted and the second is.
\<close>

theorem wifi_retry_delay_counterexample:
  "fst (connectOverWifi small_int_ops demo_env ''SER'' 5555 ''192.168.1.5:5555'') =
     [Exec [''-s'', ''SER'', ''tcpip'', ''5555''], Delay 400,
      Exec [''connect'', ''192.168.1.5:5555''], Delay 400,
      Exec [''connect'', ''192.168.1.5:5555'']]
   \<and> fst (connectOverWifi small_int_ops demo_env ''SER'' 5555 ''192.168.1.5:5555'') \<noteq>
     [Exec [''-s'', ''SER'', ''tcpip'', ''5555''], Delay 400,
      Exec [''connect'', ''192.168.1.5:5555''], Delay 200,
      Exec [''connect'', ''192.168.1.5:5555'']]"
  using connectOverWifi_cases [of demo_env small_int_ops "''SER''" 5555 "''192.168.1.5:5555''"]
    ok0 acc1 acc2
  by (simp add: tcpip_event_def connect_event_def s5555 small_int_ops_def)

lemma race_timeout_cases:
  "(elapsed < 10000 \<longrightarrow> race_timeout tie (events, elapsed, result) = result)
   \<and> (elapsed > 10000 \<longrightarrow>
        race_timeout tie (events, elapsed, result) = Inl ''WiFi connection timed out after 10 seconds'')"
  by (simp add: race_timeout_def TIMEOUT_MS_def)

lemma split_colon_nonempty: "split_colon s \<noteq> []"
  by (induction s) (simp_all add: split_colon_def)

lemma split_colon_Cons:
  "split_colon (c # s) = (if c = CHR '':'' then [] # split_colon s
                          else (c # hd (split_colon s)) # tl (split_colon s))"
  by (simp add: split_colon_def)

lemma split_colon_host:
  "CHR '':'' \<notin> set host \<Longrightarrow> split_colon (host @ CHR '':'' # rest) = host # split_colon rest"
  by (induction host) (auto simp: split_colon_Cons)

lemma switchToWifi_serial:
  assumes "CHR '':'' \<notin> set deviceStr" "deviceStr \<noteq> []"
    and "getDeviceIp deviceStr = Some ip" "ip \<noteq> []"
  shows "switchToWifi ops getSerial getDeviceIp env tie deviceStr portRaw =
           switch_outcome tie deviceStr
             (connectOverWifi ops env deviceStr (wifi_port ops portRaw None)
                (ip @ '':'' @ num_print ops (wifi_port ops portRaw None)))"
  using assms
  by (simp add: switchToWifi_def switch_outcome_def wifi_port_def Let_def)

lemma switchToWifi_host:
  assumes "CHR '':'' \<notin> set host" "host \<noteq> []"
    and "getSerial (host @ CHR '':'' # rest) = Some uuid" "uuid \<noteq> []"
  shows "switchToWifi ops getSerial getDeviceIp env tie (host @ CHR '':'' # rest) portRaw =
           switch_outcome tie uuid
             (connectOverWifi ops env uuid (wifi_port ops portRaw (device_port ops rest))
                (host @ '':'' @ num_print ops (wifi_port ops portRaw (device_port ops rest))))"
proof -
  have p: "split_colon (host @ CHR '':'' # rest) = host # split_colon rest"
    by (rule split_colon_host [OF assms(1)])
  have n1: "(host # split_colon rest) ! 1 = hd (split_colon rest)"
    using split_colon_nonempty [of rest] by (cases "split_colon rest") simp_all
  have n0: "(host # split_colon rest) ! 0 = host" by simp
  show ?thesis
    unfolding switchToWifi_def switch_outcome_def wifi_port_def device_port_def Let_def p n1 n0
    using assms(2,3,4)
    by (simp cong del: if_weak_cong option.case_cong_weak sum.case_cong_weak)
qed

lemma connectOverWifi_tcpip_fails:
  assumes "\<not> exec_ok (env 0)"
  shows "fst (connectOverWifi ops env uuid targetPort target) = [tcpip_event uuid (num_print ops targetPort)]
       \<and> (\<exists>msg. snd (snd (connectOverWifi ops env uuid targetPort target)) = Inl msg)"
  using assms by (simp add: connectOverWifi_def runAdbCommand_def Let_def tcpip_event_def)

lemma switch_outcome_timeout:
  "fst (snd run) > 10000 \<Longrightarrow>
     switch_outcome tie uuid run =
       \<lparr>sw_events = fst run, sw_success = False,
        sw_error = Some ''WiFi connection timed out after 10 seconds'', sw_preference = None\<rparr>"
  by (cases run) (simp add: switch_outcome_def race_timeout_def TIMEOUT_MS_def)

lemma switch_outcome_in_time:
  "fst (snd run) < 10000 \<Longrightarrow> snd (snd run) = Inr () \<Longrightarrow>
     switch_outcome tie uuid run =
       \<lparr>sw_events = fst run, sw_success = True, sw_error = None,
        sw_preference = Some (uuid, ''wifi'')\<rparr>"
  by (cases run) (simp add: switch_outcome_def race_timeout_def TIMEOUT_MS_def)

text \<open>
  Claim C9, amended. The target is \<open>host:port\<close> for a device id \<open>host:rest\<close> and
  \<open>ip:port\<close> with the resolved address otherwise, where the port is the request's port
  when positive, else what \<^verbatim>\<open>parseInt\<close> makes of the device id's port when that is
  neither 0 nor NaN, else 5555, printed as a template literal prints a number. The
  controller issues \<^verbatim>\<open>adb -s <serial> tcpip <port>\<close>, waits 400 ms, and
  makes at most three \<^verbatim>\<open>adb connect <target>\<close> attempts, waiting 400 ms after every
  attempt that is not accepted; an attempt is accepted exactly when the command succeeds
  and its lower-cased output contains \<open>connected to\<close> or \<open>already connected\<close>. When
  \<^verbatim>\<open>tcpip\<close> fails no connect is attempted. The sequence is raced against a 10 s timer:
  finished in less than 10 s with success, the switch succeeds and records the
  preference; past 10 s the device gets the time-out error.
\<close>

theorem wifi_switch_sequence:
  "(CHR '':'' \<notin> set deviceStr \<and> deviceStr \<noteq> [] \<and> getDeviceIp deviceStr = Some ip \<and> ip \<noteq> [] \<longrightarrow>
      switchToWifi ops getSerial getDeviceIp env tie deviceStr portRaw =
        switch_outcome tie deviceStr
          (connectOverWifi ops env deviceStr (wifi_port ops portRaw None)
             (ip @ '':'' @ num_print ops (wifi_port ops portRaw None))))
   \<and> (CHR '':'' \<notin> set host \<and> host \<noteq> [] \<and> getSerial (host @ CHR '':'' # rest) = Some serial
        \<and> serial \<noteq> [] \<longrightarrow>
      switchToWifi ops getSerial getDeviceIp env tie (host @ CHR '':'' # rest) portRaw =
        switch_outcome tie serial
          (connectOverWifi ops env serial (wifi_port ops portRaw (device_port ops rest))
             (host @ '':'' @ num_print ops (wifi_port ops portRaw (device_port ops rest)))))
   \<and> (exec_ok (env 0) \<longrightarrow>
        (attempt_accepted env 1 \<longrightarrow>
            connectOverWifi ops env uuid targetPort target =
              ([tcpip_event uuid (num_print ops targetPort), Delay 400, connect_event target],
               exec_duration (env 0) + 400 + exec_duration (env 1), Inr ()))
       \<and> (\<not> attempt_accepted env 1 \<and> attempt_accepted env 2 \<longrightarrow>
            connectOverWifi ops env uuid targetPort target =
              ([tcpip_event uuid (num_print ops targetPort), Delay 400, connect_event target, Delay 400,
                connect_event target],
               exec_duration (env 0) + 400 + exec_duration (env 1) + 400 + exec_duration (env 2),
               Inr ()))
       \<and> (\<not> attempt_accepted env 1 \<and> \<not> attempt_accepted env 2 \<and> attempt_accepted env 3 \<longrightarrow>
            connectOverWifi ops env uuid targetPort target =
              ([tcpip_event uuid (num_print ops targetPort), Delay 400, connect_event target, Delay 400,
                connect_event target, Delay 400, connect_event target],
               exec_duration (env 0) + 400 + exec_duration (env 1) + 400 + exec_duration (env 2)
                 + 400 + exec_duration (env 3),
               Inr ()))
       \<and> (\<not> attempt_accepted env 1 \<and> \<not> attempt_accepted env 2 \<and> \<not> attempt_accepted env 3 \<longrightarrow>
            connectOverWifi ops env uuid targetPort target =
              ([tcpip_event uuid (num_print ops targetPort), Delay 400, connect_event target, Delay 400,
                connect_event target, Delay 400, connect_event target, Delay 400],
               exec_duration (env 0) + 400 + exec_duration (env 1) + 400 + exec_duration (env 2)
                 + 400 + exec_duration (env 3) + 400,
               Inl (if attempt_output env 3 \<noteq> [] then attempt_output env 3
                    else ''Failed to connect over WiFi''))))
   \<and> (\<not> exec_ok (env 0) \<longrightarrow>
        fst (connectOverWifi ops env uuid targetPort target) = [tcpip_event uuid (num_print ops targetPort)]
        \<and> (\<exists>msg. snd (snd (connectOverWifi ops env uuid targetPort target)) = Inl msg))
   \<and> (fst (snd run) < 10000 \<and> snd (snd run) = Inr () \<longrightarrow>
        switch_outcome tie uuid run =
          \<lparr>sw_events = fst run, sw_success = True, sw_error = None,
           sw_preference = Some (uuid, ''wifi'')\<rparr>)
   \<and> (fst (snd run) > 10000 \<longrightarrow>
        switch_outcome tie uuid run =
          \<lparr>sw_events = fst run, sw_success = False,
           sw_error = Some ''WiFi connection timed out after 10 seconds'', sw_preference = None\<rparr>)"
  using switchToWifi_serial [of deviceStr getDeviceIp ip ops getSerial env tie portRaw]
    switchToWifi_host [of host getSerial rest serial ops getDeviceIp env tie portRaw]
    connectOverWifi_cases [of env ops uuid targetPort target]
    connectOverWifi_tcpip_fails [of env ops uuid targetPort target]
    switch_outcome_in_time [of run tie uuid]
    switch_outcome_timeout [of run tie uuid]
  by blast

text \<open>
  Witness for C9: device \<open>SER\<close> with address 192.168.1.5, no port in the request; the
  first connect is refused, the second accepted, 1100 ms in all.
\<close>

theorem wifi_switch_sequence_witness:
  "switchToWifi small_int_ops (\<lambda>d. None) (\<lambda>u. Some ''192.168.1.5'') demo_env False ''SER'' None =
     \<lparr>sw_events = [Exec [''-s'', ''SER'', ''tcpip'', ''5555''], Delay 400,
                   Exec [''connect'', ''192.168.1.5:5555''], Delay 400,
                   Exec [''connect'', ''192.168.1.5:5555'']],
      sw_success = True, sw_error = None, sw_preference = Some (''SER'', ''wifi'')\<rparr>"
proof -
  have p: "wifi_port small_int_ops None None = 5555"
    by (simp add: wifi_port_def small_int_ops_def)
  have pr: "num_print small_int_ops 5555 = ''5555''"
    by (simp add: small_int_ops_def s5555)
  have h: "CHR '':'' \<notin> set ''SER'' \<and> ''SER'' \<noteq> [] \<and> (\<lambda>u. Some ''192.168.1.5'') ''SER'' = Some ''192.168.1.5''
           \<and> ''192.168.1.5'' \<noteq> []" by simp
  note t = wifi_switch_sequence [where deviceStr = "''SER''"
      and getDeviceIp = "\<lambda>u. Some ''192.168.1.5''" and ip = "''192.168.1.5''"
      and ops = small_int_ops and getSerial = "\<lambda>d. None" and env = demo_env and tie = False
      and portRaw = None and host = "''h''" and rest = "[]" and serial = "''s''"
      and uuid = "''SER''" and targetPort = 5555 and target = "''192.168.1.5:5555''"
      and run = "connectOverWifi small_int_ops demo_env ''SER'' 5555 ''192.168.1.5:5555''"]
  have c: "connectOverWifi small_int_ops demo_env ''SER'' 5555 ''192.168.1.5:5555'' =
             ([tcpip_event ''SER'' ''5555'', Delay 400, connect_event ''192.168.1.5:5555'', Delay 400,
               connect_event ''192.168.1.5:5555''], 1100, Inr ())"
    using t ok0 acc1 acc2 by (simp add: demo_env_def pr)
  have s: "switchToWifi small_int_ops (\<lambda>d. None) (\<lambda>u. Some ''192.168.1.5'') demo_env False ''SER'' None =
        switch_outcome False ''SER''
          (connectOverWifi small_int_ops demo_env ''SER'' 5555 ''192.168.1.5:5555'')"
    using t h by (simp add: p pr)
  show ?thesis unfolding s c
    by (simp add: tcpip_event_def connect_event_def switch_outcome_def race_timeout_def
        TIMEOUT_MS_def)
qed

end
